theory Spec2Isabelle
  imports Complex_Main "HOL-Library.AList" "HOL-Library.Extended_Nat" "HOL-Library.Product_Lexorder"
begin

section \<open>Cards, sprites and containers\<close>

text \<open>
  \<^verbatim>\<open>DeckManager\<close> builds the cards from \<^verbatim>\<open>suits = ["Clubs", "Diamonds", "Hearts", "Spades"]\<close>
  and \<^verbatim>\<open>ranks = ["2", ..., "10", "J", "Q", "K", "A"]\<close>; a card is the object
  \<^verbatim>\<open>{ suit, rank }\<close>, stored as \<^verbatim>\<open>cardData\<close> of a sprite that also carries the
  \<^verbatim>\<open>depth\<close> used to find the top of a pile. A Phaser container is the list of its
  sprites (\<^verbatim>\<open>container.list\<close>): \<^verbatim>\<open>add\<close> appends at the end and takes the sprite
  out of the container that held it.
\<close>

datatype suit = Clubs | Diamonds | Hearts | Spades

datatype rank = Two | Three | Four | Five | Six | Seven | Eight | Nine | Ten
  | Jack | Queen | King | Ace

record cardData =
  suit :: suit
  rank :: rank

record sprite =
  cardData :: cardData
  depth :: nat

definition mkSprite :: "suit \<Rightarrow> rank \<Rightarrow> nat \<Rightarrow> sprite" where
  "mkSprite s r d = \<lparr>cardData = \<lparr>suit = s, rank = r\<rparr>, depth = d\<rparr>"

text \<open>\<^verbatim>\<open>DeckManager.rankOrder\<close>.\<close>

fun rankOrder :: "rank \<Rightarrow> nat" where
  "rankOrder Two = 2"
| "rankOrder Three = 3"
| "rankOrder Four = 4"
| "rankOrder Five = 5"
| "rankOrder Six = 6"
| "rankOrder Seven = 7"
| "rankOrder Eight = 8"
| "rankOrder Nine = 9"
| "rankOrder Ten = 10"
| "rankOrder Jack = 10"
| "rankOrder Queen = 10"
| "rankOrder King = 10"
| "rankOrder Ace = 11"

text \<open>
  \<^verbatim>\<open>DeckManager.getCardValue(card)\<close>: \<^verbatim>\<open>rankOrder[card.cardData.rank] || 0\<close>; every
  sprite of a container has its \<^verbatim>\<open>cardData\<close>, and every rank is a key of the table.
\<close>

definition getCardValue :: "sprite \<Rightarrow> nat" where
  "getCardValue c = rankOrder (rank (cardData c))"

definition suitOf :: "sprite \<Rightarrow> suit" where
  "suitOf c = suit (cardData c)"

section \<open>The opponent's discard: \<^verbatim>\<open>findWorstCardConsideringSuits\<close>\<close>

text \<open>
  A JavaScript object with string keys is an association list in insertion order:
  assigning to a new key appends (\<^const>\<open>AList.update\<close>), assigning to an old key
  keeps its place, and \<^verbatim>\<open>for ... in\<close> runs through the keys in that order.

  The first \<^verbatim>\<open>forEach\<close> of the source fills \<^verbatim>\<open>suitCards\<close> and \<^verbatim>\<open>suitPoints\<close> in one
  pass; here each object has its own fold over the same cards.
\<close>

definition suitCardsStep :: "sprite \<Rightarrow> (suit \<times> (sprite \<times> nat) list) list
    \<Rightarrow> (suit \<times> (sprite \<times> nat) list) list" where
  "suitCardsStep c suitCards =
     (let s = suitOf c; v = getCardValue c;
          old = (case map_of suitCards s of None \<Rightarrow> [] | Some es \<Rightarrow> es)
      in AList.update s (old @ [(c, v)]) suitCards)"

definition collectSuitCards :: "sprite list \<Rightarrow> (suit \<times> (sprite \<times> nat) list) list" where
  "collectSuitCards cards = fold suitCardsStep cards []"

definition suitPointsStep :: "sprite \<Rightarrow> (suit \<times> nat) list \<Rightarrow> (suit \<times> nat) list" where
  "suitPointsStep c suitPoints =
     (let s = suitOf c; v = getCardValue c
      in AList.update s ((case map_of suitPoints s of None \<Rightarrow> 0 | Some p \<Rightarrow> p) + v) suitPoints)"

definition collectSuitPoints :: "sprite list \<Rightarrow> (suit \<times> nat) list" where
  "collectSuitPoints cards = fold suitPointsStep cards []"

text \<open>
  The loop \<^verbatim>\<open>for (const suit in suitPoints) if (suitPoints[suit] > highestPoints) ...\<close>,
  started at \<^verbatim>\<open>strongestSuit = null, highestPoints = 0\<close>.
\<close>

definition strongestStep :: "suit \<times> nat \<Rightarrow> suit option \<times> nat \<Rightarrow> suit option \<times> nat" where
  "strongestStep e acc =
     (if snd e > snd acc then (Some (fst e), snd e) else acc)"

definition strongestLoop :: "(suit \<times> nat) list \<Rightarrow> suit option \<times> nat" where
  "strongestLoop suitPoints = fold strongestStep suitPoints (None, 0)"

text \<open>
  The body \<^verbatim>\<open>if (value < lowestValue) { lowestValue = value; worstCard = card; }\<close>;
  \<^verbatim>\<open>lowestValue\<close> starts at \<^verbatim>\<open>Infinity\<close>.
\<close>

definition worstStep :: "sprite \<times> nat \<Rightarrow> sprite option \<times> enat \<Rightarrow> sprite option \<times> enat" where
  "worstStep e acc =
     (if enat (snd e) < snd acc then (Some (fst e), enat (snd e)) else acc)"

definition scanOtherSuits :: "suit option \<Rightarrow> (suit \<times> (sprite \<times> nat) list) list
    \<Rightarrow> sprite option \<times> enat" where
  "scanOtherSuits strongestSuit suitCards =
     fold (\<lambda>(s, es) acc. if Some s \<noteq> strongestSuit then fold worstStep es acc else acc)
       suitCards (None, \<infinity>)"

text \<open>
  \<^verbatim>\<open>suitCards[strongestSuit].sort((a, b) => a.value - b.value)\<close> is a stable sort
  on the value; the first entry of the sorted array is taken when there is one.
  \<^verbatim>\<open>strongestSuit\<close> is a key of \<^verbatim>\<open>suitPoints\<close>, hence of \<^verbatim>\<open>suitCards\<close>
  (lemma \<open>strongest_has_entries\<close> below), so the lookup always finds an array.
\<close>

definition lowestOfStrongest :: "suit \<Rightarrow> (suit \<times> (sprite \<times> nat) list) list \<Rightarrow> sprite option" where
  "lowestOfStrongest s suitCards =
     (case map_of suitCards s of
        None \<Rightarrow> None
      | Some es \<Rightarrow> (case sort_key snd es of [] \<Rightarrow> None | e # _ \<Rightarrow> Some (fst e)))"

definition findWorstCardConsideringSuits :: "sprite list \<Rightarrow> sprite option" where
  "findWorstCardConsideringSuits cards =
     (if length cards \<le> 3 then None
      else
        let suitCards = collectSuitCards cards;
            suitPoints = collectSuitPoints cards;
            strongestSuit = fst (strongestLoop suitPoints);
            (worst1, lowestValue) = scanOtherSuits strongestSuit suitCards;
            worst2 = (case (worst1, strongestSuit) of
                        (None, Some s) \<Rightarrow> lowestOfStrongest s suitCards
                      | _ \<Rightarrow> worst1)
        in case worst2 of
             None \<Rightarrow> fst (fold worstStep (map (\<lambda>c. (c, getCardValue c)) cards) (None, lowestValue))
           | Some w \<Rightarrow> Some w)"

text \<open>The suit the discard routine treats as strongest.\<close>

definition discardStrongestSuit :: "sprite list \<Rightarrow> suit option" where
  "discardStrongestSuit cards = fst (strongestLoop (collectSuitPoints cards))"

section \<open>Scoring: \<^verbatim>\<open>DeckManager.calculatePoints\<close>\<close>

text \<open>
  The keys of \<^verbatim>\<open>pointsBySuit\<close> are the suit symbols of \<^verbatim>\<open>getSuitSymbol\<close>;
  \<^verbatim>\<open>GameOrchestrator.getSuitNameFromSymbol\<close> maps them back
  (\<^verbatim>\<open>symbolMap[undefined]\<close> is \<^verbatim>\<open>undefined\<close>).
\<close>

datatype suitSymbol = HeartSym | DiamondSym | ClubSym | SpadeSym

fun getSuitSymbol :: "suit \<Rightarrow> suitSymbol" where
  "getSuitSymbol Hearts = HeartSym"
| "getSuitSymbol Diamonds = DiamondSym"
| "getSuitSymbol Clubs = ClubSym"
| "getSuitSymbol Spades = SpadeSym"

fun getSuitNameFromSymbol :: "suitSymbol option \<Rightarrow> suit option" where
  "getSuitNameFromSymbol None = None"
| "getSuitNameFromSymbol (Some HeartSym) = Some Hearts"
| "getSuitNameFromSymbol (Some DiamondSym) = Some Diamonds"
| "getSuitNameFromSymbol (Some ClubSym) = Some Clubs"
| "getSuitNameFromSymbol (Some SpadeSym) = Some Spades"

text \<open>
  The reducer of \<^verbatim>\<open>calculatePoints\<close>:
  \<^verbatim>\<open>if (!acc[suitSymbol]) acc[suitSymbol] = 0; acc[suitSymbol] += rankOrder[card.rank]\<close>.
\<close>

definition pointsStep :: "sprite \<Rightarrow> (suitSymbol \<times> nat) list \<Rightarrow> (suitSymbol \<times> nat) list" where
  "pointsStep c acc =
     (let sym = getSuitSymbol (suitOf c)
      in AList.update sym
           ((case map_of acc sym of None \<Rightarrow> 0 | Some p \<Rightarrow> p) + rankOrder (rank (cardData c))) acc)"

definition pointsBySuit :: "sprite list \<Rightarrow> (suitSymbol \<times> nat) list" where
  "pointsBySuit cards = fold pointsStep cards []"

text \<open>
  \<^verbatim>\<open>maxPoints\<close>: 0 for an empty array of cards, else \<^verbatim>\<open>Math.max(...points)\<close> over
  the values of \<^verbatim>\<open>pointsBySuit\<close> (all positive). The display string is not modelled.
\<close>

definition maxPoints :: "sprite list \<Rightarrow> nat" where
  "maxPoints cards = (if cards = [] then 0 else fold max (map snd (pointsBySuit cards)) 0)"

section \<open>The opponent's draw and knock decisions (\<^verbatim>\<open>executePlayer2Turn\<close>)\<close>

text \<open>
  \<^verbatim>\<open>suitCounts[suit] = (suitCounts[suit] || 0) + 1\<close> over the opponent's cards.
\<close>

definition suitCountsStep :: "sprite \<Rightarrow> (suit \<times> nat) list \<Rightarrow> (suit \<times> nat) list" where
  "suitCountsStep c suitCounts =
     AList.update (suitOf c)
       ((case map_of suitCounts (suitOf c) of None \<Rightarrow> 0 | Some n \<Rightarrow> n) + 1) suitCounts"

definition suitCounts :: "sprite list \<Rightarrow> (suit \<times> nat) list" where
  "suitCounts cards = fold suitCountsStep cards []"

text \<open>
  \<^verbatim>\<open>Object.keys(pointsBySuit).reduce((a, b) => pointsBySuit[a] > pointsBySuit[b] ? a : b,
  Object.keys(pointsBySuit)[0])\<close>: with no key the initial value and the result are
  \<^verbatim>\<open>undefined\<close>. Every key looked up is a key of the object.
\<close>

definition pointsOf :: "(suitSymbol \<times> nat) list \<Rightarrow> suitSymbol \<Rightarrow> nat" where
  "pointsOf pbs k = (case map_of pbs k of None \<Rightarrow> 0 | Some p \<Rightarrow> p)"

definition strongestSymbol :: "(suitSymbol \<times> nat) list \<Rightarrow> suitSymbol option" where
  "strongestSymbol pbs =
     (case map fst pbs of
        [] \<Rightarrow> None
      | k0 # ks \<Rightarrow>
          Some (fold (\<lambda>b a. if pointsOf pbs a > pointsOf pbs b then a else b) (k0 # ks) k0))"

text \<open>
  The draw decision. \<^verbatim>\<open>topDiscardCard\<close> is \<^verbatim>\<open>discardPileContainer.list[0]\<close> when the
  container is not empty, else \<^verbatim>\<open>null\<close>; \<open>rnd\<close> is the value the call of
  \<^verbatim>\<open>Math.random()\<close> in the third disjunct returns when the call is made (the first two
  disjuncts short-circuit it). Card values and depths are small integers. A value of
  \<^verbatim>\<open>Math.random()\<close> is a double in the interval from 0 to 1, taken as the real number
  it denotes; the literals 0.2 and 0.7 denote the doubles nearest to them, and a double
  exceeds the double 0.7 exactly when it exceeds the real 0.7; for 0.2 the same holds of
  every double but the one nearest to 0.2 itself (no multiple of \<open>2\<^sup>-\<^sup>5\<^sup>3\<close>).
\<close>

definition topDiscardCard :: "sprite list \<Rightarrow> sprite option" where
  "topDiscardCard pile = (case pile of [] \<Rightarrow> None | c # _ \<Rightarrow> Some c)"

definition drawFromDiscard :: "sprite list \<Rightarrow> sprite option \<Rightarrow> real \<Rightarrow> bool" where
  "drawFromDiscard player2Cards examined rnd =
     (case examined of
        None \<Rightarrow> False
      | Some c \<Rightarrow>
          let discardCardValue = getCardValue c;
              discardCardSuit = suitOf c;
              counts = suitCounts player2Cards;
              strongestSuitName = getSuitNameFromSymbol (strongestSymbol (pointsBySuit player2Cards))
          in strongestSuitName = Some discardCardSuit
             \<or> (discardCardValue \<ge> 10
                 \<and> (case map_of counts discardCardSuit of None \<Rightarrow> False | Some n \<Rightarrow> n \<noteq> 0))
             \<or> (discardCardValue = 11 \<and> rnd > 0.2))"

text \<open>
  The product of two doubles is the double nearest to the exact product, ties going to
  the even significand (IEEE 754, 53 significant bits, the least exponent -1022; no
  product here comes near the overflow). \<open>exponentOf x\<close> is the \<open>e\<close> with
  \<open>2\<^sup>e \<le> x < 2\<^sup>e\<^sup>+\<^sup>1\<close>, for a positive \<open>x\<close>.
\<close>

fun bitLength :: "nat \<Rightarrow> nat" where
  "bitLength n = (if n = 0 then 0 else 1 + bitLength (n div 2))"

declare bitLength.simps [simp del]

definition pow2 :: "int \<Rightarrow> real" where
  "pow2 e = (if 0 \<le> e then 2 ^ nat e else 1 / 2 ^ nat (- e))"

definition exponentOf :: "real \<Rightarrow> int" where
  "exponentOf x =
     (if 1 \<le> x then int (bitLength (nat \<lfloor>x\<rfloor>)) - 1
      else - int (bitLength (nat (\<lceil>1 / x\<rceil> - 1))))"

definition roundHalfEven :: "real \<Rightarrow> int" where
  "roundHalfEven y =
     (let f = \<lfloor>y\<rfloor>; d = y - of_int f
      in if d < 1 / 2 then f else if 1 / 2 < d then f + 1 else if even f then f else f + 1)"

definition roundToDouble :: "real \<Rightarrow> real" where
  "roundToDouble x =
     (if x \<le> 0 then 0
      else let u = pow2 (max (exponentOf x) (- 1022) - 52)
           in u * of_int (roundHalfEven (x / u)))"

text \<open>
  \<^verbatim>\<open>knockThreshold = 20 + Math.floor(Math.random() * 5)\<close> and \<^verbatim>\<open>shouldKnock\<close>.
  \<open>rnd2\<close> is the value the call of \<^verbatim>\<open>Math.random()\<close> in \<^verbatim>\<open>knockThreshold\<close> returns
  (always made once a card to discard is found), \<open>rnd3\<close> the value the call in the last
  disjunct of \<^verbatim>\<open>shouldKnock\<close> returns when the disjuncts before it are false: one
  value for each place of call, not for each call in order. The product with 5 is
  rounded to a double before the floor; the sum with 20 is exact.
\<close>

definition knockThreshold :: "real \<Rightarrow> int" where
  "knockThreshold rnd2 = 20 + \<lfloor>roundToDouble (rnd2 * 5)\<rfloor>"

definition shouldKnock :: "nat \<Rightarrow> nat \<Rightarrow> real \<Rightarrow> real \<Rightarrow> bool" where
  "shouldKnock newPoints estimatedPlayer1Points rnd2 rnd3 =
     (let pointDifference = int newPoints - int estimatedPlayer1Points;
          hasGoodChanceToWin = pointDifference > 0
      in newPoints \<ge> 31 \<or> newPoints \<ge> 27
         \<or> (int newPoints \<ge> knockThreshold rnd2 \<and> hasGoodChanceToWin)
         \<or> (newPoints \<ge> 25 \<and> rnd3 > 0.7))"

section \<open>The scene: flags, containers, and the managers' operations\<close>

text \<open>\<^verbatim>\<open>GameManager.gameState\<close> and \<^verbatim>\<open>updateGameState(flag, value)\<close>.\<close>

record gameState =
  animationComplete :: bool
  cardsInteractable :: bool
  hasDrawnCard :: bool
  hasDiscardedCard :: bool
  mustDiscard :: bool
  knockButtonPressed :: bool
  isAnimating :: bool
  isPlayerTurn :: bool

datatype flag = AnimationComplete | CardsInteractable | HasDrawnCard | HasDiscardedCard
  | MustDiscard | KnockButtonPressed | IsAnimating | IsPlayerTurn

text \<open>
  The scene holds the game manager's flags and points, the four containers, and
  whether the End Turn button takes input (\<^verbatim>\<open>setInteractive\<close> /
  \<^verbatim>\<open>disableInteractive\<close>). The input enabling of the card sprites is not modelled:
  a click on a card is always delivered to its handler, so the model accepts every
  click the scene can receive.
\<close>

record scene =
  gameState :: gameState
  player1Points :: nat
  player2Points :: nat
  deckContainer :: "sprite list"
  player1Container :: "sprite list"
  player2Container :: "sprite list"
  discardPileContainer :: "sprite list"
  endTurnButtonEnabled :: bool

fun setFlag :: "flag \<Rightarrow> bool \<Rightarrow> gameState \<Rightarrow> gameState" where
  "setFlag AnimationComplete v g = g\<lparr>animationComplete := v\<rparr>"
| "setFlag CardsInteractable v g = g\<lparr>cardsInteractable := v\<rparr>"
| "setFlag HasDrawnCard v g = g\<lparr>hasDrawnCard := v\<rparr>"
| "setFlag HasDiscardedCard v g = g\<lparr>hasDiscardedCard := v\<rparr>"
| "setFlag MustDiscard v g = g\<lparr>mustDiscard := v\<rparr>"
| "setFlag KnockButtonPressed v g = g\<lparr>knockButtonPressed := v\<rparr>"
| "setFlag IsAnimating v g = g\<lparr>isAnimating := v\<rparr>"
| "setFlag IsPlayerTurn v g = g\<lparr>isPlayerTurn := v\<rparr>"

definition updateGameState :: "flag \<Rightarrow> bool \<Rightarrow> scene \<Rightarrow> scene" where
  "updateGameState f v s = s\<lparr>gameState := setFlag f v (gameState s)\<rparr>"

text \<open>The constructor of \<^verbatim>\<open>GameManager\<close>; \<^verbatim>\<open>resetFlags\<close> assigns the same object.\<close>

definition resetFlags :: gameState where
  "resetFlags = \<lparr>animationComplete = False, cardsInteractable = False, hasDrawnCard = False,
     hasDiscardedCard = False, mustDiscard = False, knockButtonPressed = False,
     isAnimating = False, isPlayerTurn = True\<rparr>"

datatype player = Player1 | Player2

fun playerContainer :: "player \<Rightarrow> scene \<Rightarrow> sprite list" where
  "playerContainer Player1 s = player1Container s"
| "playerContainer Player2 s = player2Container s"

fun setPlayerContainer :: "player \<Rightarrow> sprite list \<Rightarrow> scene \<Rightarrow> scene" where
  "setPlayerContainer Player1 h s = s\<lparr>player1Container := h\<rparr>"
| "setPlayerContainer Player2 h s = s\<lparr>player2Container := h\<rparr>"

text \<open>
  \<^verbatim>\<open>list.reduce((highest, current) => current.depth > highest.depth ? current : highest,
  list[0])\<close>, the top card of a container; \<^verbatim>\<open>undefined\<close> for an empty one.
\<close>

definition topByDepth :: "sprite list \<Rightarrow> sprite option" where
  "topByDepth cards =
     (case cards of
        [] \<Rightarrow> None
      | c0 # _ \<Rightarrow>
          Some (fold (\<lambda>current highest. if depth current > depth highest then current else highest)
                  cards c0))"

text \<open>
  \<^verbatim>\<open>discardPileContainer.list.reduce((highest, current) => Math.max(highest, current.depth), 0)\<close>
  and \<^verbatim>\<open>DiscardPileManager.getHighestDepth\<close>.
\<close>

definition currentHighestDepth :: "sprite list \<Rightarrow> nat" where
  "currentHighestDepth cards = fold (\<lambda>current highest. max highest (depth current)) cards 0"

definition getHighestDepth :: "sprite list \<Rightarrow> nat" where
  "getHighestDepth cards = (if cards = [] then 0 else fold max (map depth cards) 0)"

text \<open>
  Faults. The source defines no error class of its own; \<open>EmptyDeckError\<close> is the
  error the specification names, \<open>TypeError\<close> is what JavaScript throws on a
  property access of \<^verbatim>\<open>undefined\<close>.
\<close>

datatype fault = EmptyDeckError | TypeError

text \<open>
  \<^verbatim>\<open>DeckManager.moveTopCardToPlayer\<close> and \<^verbatim>\<open>DiscardPileManager.moveTopCardToPlayer\<close>
  on the list of their container: \<open>Inr None\<close> is the early \<^verbatim>\<open>return\<close> on an empty
  container (nothing moves and \<^verbatim>\<open>onComplete\<close> is never called), \<open>Inr (Some (c, rest))\<close>
  the top card handed to the player and the cards left behind. Neither function has a
  \<^verbatim>\<open>throw\<close>.
\<close>

definition moveTopCardToPlayer :: "sprite list \<Rightarrow> fault + (sprite \<times> sprite list) option" where
  "moveTopCardToPlayer cards =
     (if length cards = 0 then Inr None
      else case topByDepth cards of
             None \<Rightarrow> Inr None
           | Some topCard \<Rightarrow> Inr (Some (topCard, remove1 topCard cards)))"

datatype source = FromDeck | FromDiscardPile

fun sourceContainer :: "source \<Rightarrow> scene \<Rightarrow> sprite list" where
  "sourceContainer FromDeck s = deckContainer s"
| "sourceContainer FromDiscardPile s = discardPileContainer s"

fun setSourceContainer :: "source \<Rightarrow> sprite list \<Rightarrow> scene \<Rightarrow> scene" where
  "setSourceContainer FromDeck d s = s\<lparr>deckContainer := d\<rparr>"
| "setSourceContainer FromDiscardPile d s = s\<lparr>discardPileContainer := d\<rparr>"

text \<open>
  \<^verbatim>\<open>updateTotalPoints\<close>, \<^verbatim>\<open>updateTotalPointsPlayer2\<close> (through
  \<^verbatim>\<open>GameManager.setPlayerPoints\<close>) and \<^verbatim>\<open>updateEndTurnButton\<close>.
\<close>

fun updateTotalPoints :: "player \<Rightarrow> scene \<Rightarrow> scene" where
  "updateTotalPoints Player1 s = s\<lparr>player1Points := maxPoints (player1Container s)\<rparr>"
| "updateTotalPoints Player2 s = s\<lparr>player2Points := maxPoints (player2Container s)\<rparr>"

definition updateEndTurnButton :: "scene \<Rightarrow> scene" where
  "updateEndTurnButton s =
     (if knockButtonPressed (gameState s) then s\<lparr>endTurnButtonEnabled := False\<rparr>
      else if isPlayerTurn (gameState s) \<and> length (player1Container s) = 3
      then s\<lparr>endTurnButtonEnabled := True\<rparr>
      else s\<lparr>endTurnButtonEnabled := False\<rparr>)"

text \<open>
  The \<^verbatim>\<open>updatePoints\<close> callbacks the orchestrator passes to the flow manager: for the
  human \<^verbatim>\<open>updateTotalPoints(); updateEndTurnButton()\<close>, for the opponent
  \<^verbatim>\<open>updateTotalPointsPlayer2(false)\<close>.
\<close>

fun updatePoints :: "player \<Rightarrow> scene \<Rightarrow> scene" where
  "updatePoints Player1 s = updateEndTurnButton (updateTotalPoints Player1 s)"
| "updatePoints Player2 s = updateTotalPoints Player2 s"

text \<open>
  The card set up in the hand: \<^verbatim>\<open>PlayerManager.setupPlayerCard\<close> gives the human's card
  the depth of its place (\<^verbatim>\<open>container.list.length - 1\<close>, after the add);
  \<^verbatim>\<open>setupCard\<close> leaves the opponent's card at its depth.
\<close>

fun addToHand :: "player \<Rightarrow> sprite \<Rightarrow> sprite list \<Rightarrow> sprite list" where
  "addToHand Player1 c h = h @ [c\<lparr>depth := length h\<rparr>]"
| "addToHand Player2 c h = h @ [c]"

section \<open>\<^verbatim>\<open>GameFlowManager\<close>: guarded draw and discard\<close>

text \<open>The two \<^verbatim>\<open>if (...) return;\<close> guards at the head of \<^verbatim>\<open>moveCardToPlayer\<close>.\<close>

fun drawRejected :: "player \<Rightarrow> gameState \<Rightarrow> bool" where
  "drawRejected Player1 g =
     (\<not> isPlayerTurn g \<or> hasDrawnCard g \<or> knockButtonPressed g \<or> isAnimating g)"
| "drawRejected Player2 g = (knockButtonPressed g \<or> isAnimating g)"

text \<open>
  \<^verbatim>\<open>moveCardToPlayer\<close> with the tween of the source manager run to its completion:
  the flags are set, then the manager either returns at once on an empty container
  (the completion callback never runs) or moves the top card and runs the callback.
\<close>

definition moveCardToPlayer :: "source \<Rightarrow> player \<Rightarrow> scene \<Rightarrow> scene" where
  "moveCardToPlayer src p s =
     (if drawRejected p (gameState s) then s
      else
        let s1 = updateGameState CardsInteractable False (updateGameState IsAnimating True s)
        in case moveTopCardToPlayer (sourceContainer src s1) of
             Inl _ \<Rightarrow> s1
           | Inr None \<Rightarrow> s1
           | Inr (Some (topCard, rest)) \<Rightarrow>
               let s2 = setPlayerContainer p (addToHand p topCard (playerContainer p s1))
                          (setSourceContainer src rest s1);
                   s3 = updateGameState MustDiscard True
                          (updateGameState HasDiscardedCard False
                            (updateGameState HasDrawnCard True s2));
                   s4 = updatePoints p s3;
                   s5 = updateGameState IsAnimating False s4
               in if isPlayerTurn (gameState s5)
                  then updateGameState CardsInteractable True s5 else s5)"

text \<open>The two guards at the head of \<^verbatim>\<open>discardCard\<close>.\<close>

fun discardRejected :: "player \<Rightarrow> gameState \<Rightarrow> bool" where
  "discardRejected Player1 g =
     (\<not> isPlayerTurn g \<or> \<not> mustDiscard g \<or> hasDiscardedCard g
      \<or> knockButtonPressed g \<or> isAnimating g)"
| "discardRejected Player2 g = (knockButtonPressed g \<or> isAnimating g)"

text \<open>
  \<^verbatim>\<open>DiscardPileManager.discardCardFromPlayer\<close>: the card leaves the player's container,
  gets depth \<^verbatim>\<open>currentHighestDepth + 100\<close>, is added to the pile and then set to
  \<^verbatim>\<open>getHighestDepth(pile) + 10\<close>, the pile now holding the card itself.
\<close>

definition discardCardFromPlayer :: "sprite \<Rightarrow> player \<Rightarrow> scene \<Rightarrow> scene" where
  "discardCardFromPlayer c p s =
     (let s1 = setPlayerContainer p (remove1 c (playerContainer p s)) s;
          c1 = c\<lparr>depth := currentHighestDepth (discardPileContainer s1) + 100\<rparr>;
          pile1 = discardPileContainer s1 @ [c1];
          c2 = c1\<lparr>depth := getHighestDepth pile1 + 10\<rparr>
      in s1\<lparr>discardPileContainer := discardPileContainer s1 @ [c2]\<rparr>)"

text \<open>
  \<^verbatim>\<open>discardCard\<close> up to the end of the discard tween: guards, flags, the move, the
  points and the three flags of the completion callback.
\<close>

definition discardCard :: "sprite \<Rightarrow> player \<Rightarrow> scene \<Rightarrow> scene" where
  "discardCard c p s =
     (if discardRejected p (gameState s) then s
      else
        let s1 = updateGameState CardsInteractable False (updateGameState IsAnimating True s);
            s2 = discardCardFromPlayer c p s1;
            s3 = updatePoints p s2;
            s4 = updateGameState MustDiscard False
                   (updateGameState HasDrawnCard False
                     (updateGameState HasDiscardedCard True s3))
        in updateGameState CardsInteractable False s4)"

text \<open>
  The \<^verbatim>\<open>delayedCall(500, ...)\<close> that \<^verbatim>\<open>discardCard\<close> schedules when it was not
  rejected.
\<close>

definition discardSettled :: "player \<Rightarrow> scene \<Rightarrow> scene" where
  "discardSettled p s =
     (let s1 = updateGameState IsAnimating False s
      in if p = Player1 then updateGameState CardsInteractable True s1
         else if isPlayerTurn (gameState s1) then updateGameState CardsInteractable True s1
         else s1)"

section \<open>Dealing\<close>

text \<open>
  \<^verbatim>\<open>DeckManager.createDeck\<close>: the 52 cards, shuffled by \<^verbatim>\<open>Phaser.Utils.Array.Shuffle\<close>
  (\<open>shuffled\<close> is the array after the shuffle), each wrapped in a sprite whose depth
  is its index, so that the end of the array is the top of the deck.
\<close>

definition allSuits :: "suit list" where
  "allSuits = [Clubs, Diamonds, Hearts, Spades]"

definition allRanks :: "rank list" where
  "allRanks = [Two, Three, Four, Five, Six, Seven, Eight, Nine, Ten, Jack, Queen, King, Ace]"

definition unshuffledDeck :: "cardData list" where
  "unshuffledDeck = concat (map (\<lambda>s. map (\<lambda>r. \<lparr>suit = s, rank = r\<rparr>) allRanks) allSuits)"

definition createDeck :: "cardData list \<Rightarrow> sprite list" where
  "createDeck shuffled = map (\<lambda>(i, c). \<lparr>cardData = c, depth = i\<rparr>) (List.enumerate 0 shuffled)"

text \<open>
  The scene after \<^verbatim>\<open>create()\<close>: fresh managers, the deck built, and
  \<^verbatim>\<open>initializeGame\<close> has set \<^verbatim>\<open>isAnimating\<close>; \<^verbatim>\<open>updateEndTurnButton\<close> found an
  empty hand.
\<close>

definition initialScene :: "cardData list \<Rightarrow> scene" where
  "initialScene shuffled =
     \<lparr>gameState = resetFlags\<lparr>isAnimating := True\<rparr>, player1Points = 0, player2Points = 0,
      deckContainer = createDeck shuffled, player1Container = [], player2Container = [],
      discardPileContainer = [], endTurnButtonEnabled = False\<rparr>"

text \<open>
  \<^verbatim>\<open>DeckManager.dealCards\<close>: \<^verbatim>\<open>sortedDeck = [...deck].sort((a, b) => b.depth - a.depth)\<close>
  (a stable sort); for \<^verbatim>\<open>cardIndex\<close> 0 to 5 the card \<^verbatim>\<open>sortedDeck[cardIndex]\<close> goes to
  player 1 when the index is even and to player 2 when it is odd; then
  \<^verbatim>\<open>sortedDeck[6]\<close> goes to the discard pile.
\<close>

definition sortedDeck :: "sprite list \<Rightarrow> sprite list" where
  "sortedDeck deck = sort_key (\<lambda>c. - int (depth c)) deck"

definition dealCard :: "sprite list \<Rightarrow> nat \<Rightarrow> scene \<Rightarrow> scene" where
  "dealCard sortedCards cardIndex s =
     (let c = sortedCards ! cardIndex;
          p = (if cardIndex mod 2 = 0 then Player1 else Player2)
      in setPlayerContainer p (addToHand p c (playerContainer p s))
           (s\<lparr>deckContainer := remove1 c (deckContainer s)\<rparr>))"

text \<open>
  \<^verbatim>\<open>DiscardPileManager.moveCardToDiscardPile\<close>: depth \<^verbatim>\<open>currentHighestDepth + 1\<close>
  for the flight, then the add and \<^verbatim>\<open>getHighestDepth(pile) + 10\<close>.
\<close>

definition moveCardToDiscardPile :: "sprite \<Rightarrow> scene \<Rightarrow> scene" where
  "moveCardToDiscardPile c s =
     (let c1 = c\<lparr>depth := currentHighestDepth (discardPileContainer s) + 1\<rparr>;
          pile1 = discardPileContainer s @ [c1];
          c2 = c1\<lparr>depth := getHighestDepth pile1 + 10\<rparr>
      in s\<lparr>deckContainer := remove1 c (deckContainer s),
           discardPileContainer := discardPileContainer s @ [c2]\<rparr>)"

text \<open>
  \<^verbatim>\<open>GameFlowManager.dealCards\<close> with the callbacks of \<^verbatim>\<open>GameOrchestrator.dealCards\<close>
  and the timer of \<^verbatim>\<open>initializeGame\<close>, run to completion. With fewer than seven
  sprites \<^verbatim>\<open>sortedDeck[cardIndex]\<close> is \<^verbatim>\<open>undefined\<close> and setting the card up
  throws.
\<close>

definition dealCards :: "scene \<Rightarrow> fault + scene" where
  "dealCards s =
     (let s1 = updateGameState CardsInteractable False (updateGameState IsAnimating True s);
          sortedCards = sortedDeck (deckContainer s1)
      in if length sortedCards < 7 then Inl TypeError
         else
           let s2 = fold (dealCard sortedCards) [0..<6] s1;
               s3 = moveCardToDiscardPile (sortedCards ! 6) s2;
               s4 = updateGameState AnimationComplete True s3;
               s5 = updateGameState IsAnimating False s4;
               s6 = updateTotalPoints Player1
                      (updateGameState MustDiscard False
                        (updateGameState CardsInteractable True s5))
           in Inr (updateEndTurnButton s6))"

definition startSession :: "cardData list \<Rightarrow> fault + scene" where
  "startSession shuffled = dealCards (initialScene shuffled)"

section \<open>\<^verbatim>\<open>GameOrchestrator\<close>: the handlers\<close>

text \<open>
  \<^verbatim>\<open>createKnockButton\<close> and \<^verbatim>\<open>createEndTurnButton\<close> receive
  \<^verbatim>\<open>this.gameManager.gameState.isPlayerTurn\<close> as an argument when \<^verbatim>\<open>createUI\<close> runs:
  their handlers test that value, the one of the fresh flags.
\<close>

definition capturedIsPlayerTurn :: bool where
  "capturedIsPlayerTurn = isPlayerTurn resetFlags"

text \<open>
  The knock callback of the human, and \<^verbatim>\<open>player2Knock\<close>; \<^verbatim>\<open>flipPlayer2Cards\<close> ends
  with \<^verbatim>\<open>updateTotalPointsPlayer2\<close> once every card of the opponent has flipped (never,
  for an empty hand) and the restart button is created.
\<close>

definition flipPlayer2Cards :: "scene \<Rightarrow> scene" where
  "flipPlayer2Cards s = (if player2Container s = [] then s else updateTotalPoints Player2 s)"

definition knock :: "scene \<Rightarrow> scene" where
  "knock s =
     (let s1 = updateGameState CardsInteractable False
                 (updateGameState KnockButtonPressed True s)
      in s1\<lparr>endTurnButtonEnabled := False\<rparr>)"

definition startPlayer1Turn :: "scene \<Rightarrow> scene" where
  "startPlayer1Turn s =
     updateGameState CardsInteractable True (updateGameState IsPlayerTurn True s)"

text \<open>The callback of the End Turn button, before \<^verbatim>\<open>executePlayer2Turn\<close>.\<close>

definition onEndTurn :: "scene \<Rightarrow> scene" where
  "onEndTurn s =
     (let s1 = updateGameState CardsInteractable False
                 (updateGameState MustDiscard False
                   (updateGameState HasDiscardedCard False
                     (updateGameState HasDrawnCard False
                       (updateGameState IsPlayerTurn False s))))
      in s1\<lparr>endTurnButtonEnabled := False\<rparr>)"

text \<open>
  \<^verbatim>\<open>executePlayer2Turn\<close>, its timers run in the order of their delays. The draw comes
  first. At the discard step \<^verbatim>\<open>worstCard\<close> is computed; when it is \<^verbatim>\<open>null\<close> nothing
  else is scheduled. Otherwise \<^verbatim>\<open>discardCardFromPlayer2\<close> starts the flip of the card
  and \<^verbatim>\<open>newPoints\<close> is read at once, while the card is still in the hand; the discard
  itself runs when the flip ends, then \<^verbatim>\<open>player2Knock\<close> or \<^verbatim>\<open>startPlayer1Turn\<close>, then
  the settling of the discard, then the delayed tail of the knock
  (\<^verbatim>\<open>flipPlayer2Cards\<close>) or of the new turn (\<^verbatim>\<open>updateEndTurnButton\<close>).
\<close>

definition player2Draw :: "real \<Rightarrow> scene \<Rightarrow> scene" where
  "player2Draw rnd1 s =
     (if drawFromDiscard (player2Container s) (topDiscardCard (discardPileContainer s)) rnd1
      then moveCardToPlayer FromDiscardPile Player2 s
      else moveCardToPlayer FromDeck Player2 s)"

definition player2DiscardStep :: "real \<Rightarrow> real \<Rightarrow> scene \<Rightarrow> scene" where
  "player2DiscardStep rnd2 rnd3 s =
     (case findWorstCardConsideringSuits (player2Container s) of
        None \<Rightarrow> s
      | Some worstCard \<Rightarrow>
          let newPoints = maxPoints (player2Container s);
              estimatedPlayer1Points = maxPoints (player1Container s);
              rejected = discardRejected Player2 (gameState s);
              s1 = discardCard worstCard Player2 s;
              knocks = shouldKnock newPoints estimatedPlayer1Points rnd2 rnd3;
              s2 = (if knocks then knock s1 else startPlayer1Turn s1);
              s3 = (if rejected then s2 else discardSettled Player2 s2)
          in if knocks then flipPlayer2Cards s3 else updateEndTurnButton s3)"

definition executePlayer2Turn :: "real \<Rightarrow> real \<Rightarrow> real \<Rightarrow> scene \<Rightarrow> scene" where
  "executePlayer2Turn rnd1 rnd2 rnd3 s = player2DiscardStep rnd2 rnd3 (player2Draw rnd1 s)"

text \<open>\<^verbatim>\<open>CardSortingManager\<close>: stable sorts, and \<^verbatim>\<open>rearrangeCards\<close>.\<close>

fun suitOrder :: "suit \<Rightarrow> nat" where
  "suitOrder Hearts = 0"
| "suitOrder Diamonds = 1"
| "suitOrder Clubs = 2"
| "suitOrder Spades = 3"

definition sortCardsByRank :: "sprite list \<Rightarrow> sprite list" where
  "sortCardsByRank cards = sort_key (\<lambda>c. rankOrder (rank (cardData c))) cards"

definition sortCardsBySuit :: "sprite list \<Rightarrow> sprite list" where
  "sortCardsBySuit cards =
     sort_key (\<lambda>c. (suitOrder (suit (cardData c)), rankOrder (rank (cardData c)))) cards"

definition rearrangeCards :: "sprite list \<Rightarrow> sprite list" where
  "rearrangeCards sortedCards = map (\<lambda>(i, c). c\<lparr>depth := i\<rparr>) (List.enumerate 0 sortedCards)"

text \<open>
  The inputs of the scene. A click on the deck or on the discard pile is a click on
  its top sprite (the handlers ignore every other sprite); a click on a card of the
  hand names its place; the End Turn click carries, for each of the three
  places where the opponent's turn calls \<^verbatim>\<open>Math.random()\<close>, the value the call returns if
  it is made; the restart click (the
  button exists once somebody has knocked) carries the shuffle of the new deck.
\<close>

text \<open>
  The human's discard (\<^verbatim>\<open>GameOrchestrator.discardCard\<close>): the guarded discard and,
  when it was not rejected, its settling.
\<close>

definition player1Discard :: "sprite \<Rightarrow> scene \<Rightarrow> scene" where
  "player1Discard c s =
     (if discardRejected Player1 (gameState s) then s
      else discardSettled Player1 (discardCard c Player1 s))"

datatype event = ClickDeckCard | ClickDiscardPileCard | ClickHandCard nat | ClickKnock
  | ClickEndTurn real real real | ClickSortByRank | ClickSortBySuit
  | ClickRestart "cardData list"

fun handle :: "event \<Rightarrow> scene \<Rightarrow> fault + scene" where
  "handle ClickDeckCard s =
     (let g = gameState s
      in if deckContainer s \<noteq> [] \<and> cardsInteractable g \<and> \<not> mustDiscard g \<and> \<not> isAnimating g
         then Inr (moveCardToPlayer FromDeck Player1 s) else Inr s)"
| "handle ClickDiscardPileCard s =
     (let g = gameState s
      in if discardPileContainer s \<noteq> [] \<and> cardsInteractable g \<and> \<not> isAnimating g
            \<and> \<not> mustDiscard g
         then Inr (moveCardToPlayer FromDiscardPile Player1 s) else Inr s)"
| "handle (ClickHandCard i) s =
     (let g = gameState s
      in if i < length (player1Container s) \<and> cardsInteractable g \<and> \<not> isAnimating g
            \<and> mustDiscard g
         then Inr (player1Discard (player1Container s ! i) s)
         else Inr s)"
| "handle ClickKnock s =
     (let g = gameState s
      in if \<not> animationComplete g \<or> length (player1Container s) > 3
            \<or> knockButtonPressed g \<or> \<not> capturedIsPlayerTurn
         then Inr s else Inr (flipPlayer2Cards (knock s)))"
| "handle (ClickEndTurn rnd1 rnd2 rnd3) s =
     (if endTurnButtonEnabled s \<and> capturedIsPlayerTurn \<and> length (player1Container s) = 3
      then Inr (executePlayer2Turn rnd1 rnd2 rnd3 (onEndTurn s)) else Inr s)"
| "handle ClickSortByRank s =
     (if cardsInteractable (gameState s) \<and> \<not> knockButtonPressed (gameState s)
      then Inr (s\<lparr>player1Container := rearrangeCards (sortCardsByRank (player1Container s))\<rparr>)
      else Inr s)"
| "handle ClickSortBySuit s =
     (if cardsInteractable (gameState s) \<and> \<not> knockButtonPressed (gameState s)
      then Inr (s\<lparr>player1Container := rearrangeCards (sortCardsBySuit (player1Container s))\<rparr>)
      else Inr s)"
| "handle (ClickRestart shuffled) s =
     (if knockButtonPressed (gameState s) then startSession shuffled else Inr s)"

text \<open>A run of the scene: the inputs in order, stopping at the first fault.\<close>

fun run :: "event list \<Rightarrow> scene \<Rightarrow> fault + scene" where
  "run [] s = Inr s"
| "run (e # es) s = (case handle e s of Inl f \<Rightarrow> Inl f | Inr s' \<Rightarrow> run es s')"


section \<open>Notions of the specification\<close>

text \<open>
  The suits of a hand, each once, in the order of their first appearance; the cards
  of one suit, in hand order; the total of a suit; the greatest total of the hand.
\<close>

definition firstSeen :: "'a list \<Rightarrow> 'a list" where
  "firstSeen xs = rev (remdups (rev xs))"

definition suitsInOrder :: "sprite list \<Rightarrow> suit list" where
  "suitsInOrder cards = firstSeen (map suitOf cards)"

definition cardsOfSuit :: "suit \<Rightarrow> sprite list \<Rightarrow> sprite list" where
  "cardsOfSuit s cards = filter (\<lambda>c. suitOf c = s) cards"

definition suitTotal :: "sprite list \<Rightarrow> suit \<Rightarrow> nat" where
  "suitTotal cards s = sum_list (map getCardValue (cardsOfSuit s cards))"

definition greatestTotal :: "sprite list \<Rightarrow> nat" where
  "greatestTotal cards = Max (insert 0 (suitTotal cards ` set (suitsInOrder cards)))"

text \<open>
  The first card of lowest value of a list. The discard the specification describes,
  read on the order in which the code meets the candidates: the cards outside the
  strongest suit are listed suit by suit (suits in order of first appearance, the cards
  of a suit in hand order); the first lowest of them is discarded, and the first lowest
  of the whole hand when there is none. The strongest suit is the first suit whose
  total is the greatest.
\<close>

definition firstLowest :: "sprite list \<Rightarrow> sprite" where
  "firstLowest cards = arg_min_list getCardValue cards"

definition otherSuitCards :: "sprite list \<Rightarrow> suit option \<Rightarrow> sprite list" where
  "otherSuitCards cards strongest =
     concat (map (\<lambda>s. cardsOfSuit s cards)
       (filter (\<lambda>s. Some s \<noteq> strongest) (suitsInOrder cards)))"

definition chooseDiscard :: "sprite list \<Rightarrow> sprite" where
  "chooseDiscard cards =
     (let strongest = List.find (\<lambda>s. suitTotal cards s = greatestTotal cards) (suitsInOrder cards);
          others = otherSuitCards cards strongest
      in if others \<noteq> [] then firstLowest others else firstLowest cards)"

text \<open>
  The strongest suit as the draw decision sees it: the last suit, in order of first
  appearance, whose total is the greatest.
\<close>

definition lastStrongest :: "sprite list \<Rightarrow> suit" where
  "lastStrongest hand =
     last (filter (\<lambda>s. suitTotal hand s = greatestTotal hand) (suitsInOrder hand))"



text \<open>
  The guards of the specification, in its words. A draw is legal iff it is the
  player's turn, no discard is owed, nothing has been drawn, nobody has knocked and
  nothing is animating; a discard is legal iff a discard is owed, none has been made,
  the card is in the player's hand, nobody has knocked and nothing is animating.
\<close>

definition specDrawGuard :: "player \<Rightarrow> gameState \<Rightarrow> bool" where
  "specDrawGuard p g =
     ((isPlayerTurn g = (p = Player1)) \<and> \<not> mustDiscard g \<and> \<not> hasDrawnCard g
      \<and> \<not> knockButtonPressed g \<and> \<not> isAnimating g)"

definition specDiscardGuard :: "player \<Rightarrow> sprite \<Rightarrow> scene \<Rightarrow> bool" where
  "specDiscardGuard p c s =
     (mustDiscard (gameState s) \<and> \<not> hasDiscardedCard (gameState s)
      \<and> c \<in> set (playerContainer p s) \<and> \<not> knockButtonPressed (gameState s)
      \<and> \<not> isAnimating (gameState s))"

text \<open>The restart clicks.\<close>

fun isRestart :: "event \<Rightarrow> bool" where
  "isRestart (ClickRestart shuffled) = True"
| "isRestart e = False"

text \<open>
  The shape shared by the per-suit accumulations of the source (\<^verbatim>\<open>suitPoints\<close>,
  \<^verbatim>\<open>suitCards\<close>, \<^verbatim>\<open>suitCounts\<close>, \<^verbatim>\<open>pointsBySuit\<close>): the entry of the card's key is
  replaced by a function of the card and of the old entry, or of \<open>z\<close> when there is
  none.
\<close>

definition tally :: "('a \<Rightarrow> 'k) \<Rightarrow> ('a \<Rightarrow> 'v \<Rightarrow> 'v) \<Rightarrow> 'v \<Rightarrow> 'a
    \<Rightarrow> ('k \<times> 'v) list \<Rightarrow> ('k \<times> 'v) list" where
  "tally key h z c acc =
     AList.update (key c) (h c (case map_of acc (key c) of None \<Rightarrow> z | Some v \<Rightarrow> v)) acc"

section \<open>Concrete hands and scenes\<close>

text \<open>
  The hand of the specification's discard example; a hand whose two lowest cards
  outside the strongest suit tie; a hand whose two strongest suits tie; a deck of two
  cards.
\<close>

definition exampleHand :: "sprite list" where
  "exampleHand = [mkSprite Spades Two 40, mkSprite Spades Nine 38,
                  mkSprite Hearts Seven 36, mkSprite Hearts Ace 30]"

definition tieHand :: "sprite list" where
  "tieHand = [mkSprite Clubs Ace 30, mkSprite Spades Three 28,
              mkSprite Hearts Two 26, mkSprite Spades Two 20]"

definition tieDrawHand :: "sprite list" where
  "tieDrawHand = [mkSprite Hearts Five 50, mkSprite Spades Five 48, mkSprite Clubs Two 46]"

definition twoCardDeck :: "sprite list" where
  "twoCardDeck = [mkSprite Hearts Five 0, mkSprite Clubs King 1]"

text \<open>
  A scene in the middle of the human's turn: a card has been drawn and a discard is
  owed. The scene \<open>knockedScene\<close> is the same hand of three after the human's knock.
\<close>

definition midTurnScene :: scene where
  "midTurnScene =
     \<lparr>gameState = \<lparr>animationComplete = True, cardsInteractable = True, hasDrawnCard = True,
        hasDiscardedCard = False, mustDiscard = True, knockButtonPressed = False,
        isAnimating = False, isPlayerTurn = True\<rparr>,
      player1Points = 19, player2Points = 0,
      deckContainer = twoCardDeck,
      player1Container = [mkSprite Spades Ace 0, mkSprite Spades Eight 1,
                          mkSprite Diamonds Four 2, mkSprite Clubs Two 3],
      player2Container = [mkSprite Hearts King 7, mkSprite Diamonds Nine 5,
                          mkSprite Clubs Three 3],
      discardPileContainer = [mkSprite Hearts Six 11],
      endTurnButtonEnabled = False\<rparr>"

definition knockedScene :: scene where
  "knockedScene = knock (midTurnScene\<lparr>player1Container := [mkSprite Spades Ace 0,
     mkSprite Spades Eight 1, mkSprite Diamonds Four 2]\<rparr>)"

text \<open>
  The human's turn is over, the deck is empty, and the card the opponent examines (the
  6 of hearts) gives it no reason to take the discard pile. \<open>stuckScene\<close> is what the
  opponent's turn makes of it.
\<close>

definition emptyDeckScene :: scene where
  "emptyDeckScene =
     \<lparr>gameState = \<lparr>animationComplete = True, cardsInteractable = True, hasDrawnCard = False,
        hasDiscardedCard = True, mustDiscard = False, knockButtonPressed = False,
        isAnimating = False, isPlayerTurn = True\<rparr>,
      player1Points = 19, player2Points = 9,
      deckContainer = [],
      player1Container = [mkSprite Spades Ace 0, mkSprite Spades Eight 1,
                          mkSprite Diamonds Four 2],
      player2Container = [mkSprite Clubs Nine 7, mkSprite Diamonds Five 5,
                          mkSprite Hearts Three 3],
      discardPileContainer = [mkSprite Hearts Six 11, mkSprite Spades Two 121],
      endTurnButtonEnabled = True\<rparr>"


section \<open>Evaluation of the opponent's decisions on concrete hands\<close>

lemmas ai_eval_defs = findWorstCardConsideringSuits_def collectSuitCards_def
  collectSuitPoints_def suitCardsStep_def suitPointsStep_def strongestLoop_def
  strongestStep_def scanOtherSuits_def worstStep_def lowestOfStrongest_def
  discardStrongestSuit_def getCardValue_def suitOf_def mkSprite_def

text \<open>
  C1 (as stated): for the hand 2 of spades, 9 of spades, 7 of hearts, ace of hearts the
  strongest suit is Spades and the 7 of hearts is returned. The code does not do this:
  Hearts totals 18 against 11 for Spades.
\<close>

theorem C1_example_counterexample:
  "\<not> (discardStrongestSuit exampleHand = Some Spades
      \<and> findWorstCardConsideringSuits exampleHand = Some (mkSprite Hearts Seven 36))"
  by (simp add: exampleHand_def ai_eval_defs)

text \<open>
  C1 (amended): for that hand the per-suit totals are Spades 11 and Hearts 18, the
  strongest suit is Hearts, and the card returned is the 2 of spades, the lowest card
  outside Hearts.
\<close>

theorem C1_example_amended:
  "collectSuitPoints exampleHand = [(Spades, 11), (Hearts, 18)]
   \<and> discardStrongestSuit exampleHand = Some Hearts
   \<and> findWorstCardConsideringSuits exampleHand = Some (mkSprite Spades Two 40)"
  by (simp add: exampleHand_def ai_eval_defs)

section \<open>Reading the flags and containers after an update\<close>

lemma updateGameState_containers [simp]:
  "deckContainer (updateGameState f v s) = deckContainer s"
  "player1Container (updateGameState f v s) = player1Container s"
  "player2Container (updateGameState f v s) = player2Container s"
  "discardPileContainer (updateGameState f v s) = discardPileContainer s"
  "player1Points (updateGameState f v s) = player1Points s"
  "player2Points (updateGameState f v s) = player2Points s"
  "endTurnButtonEnabled (updateGameState f v s) = endTurnButtonEnabled s"
  "gameState (updateGameState f v s) = setFlag f v (gameState s)"
  by (simp_all add: updateGameState_def)

lemma playerContainer_updateGameState [simp]:
  "playerContainer p (updateGameState f v s) = playerContainer p s"
  by (cases p) simp_all

lemma sourceContainer_updateGameState [simp]:
  "sourceContainer src (updateGameState f v s) = sourceContainer src s"
  by (cases src) simp_all

lemma gameState_setPlayerContainer [simp]:
  "gameState (setPlayerContainer p h s) = gameState s"
  by (cases p) simp_all

lemma gameState_setSourceContainer [simp]:
  "gameState (setSourceContainer src d s) = gameState s"
  by (cases src) simp_all

lemma gameState_updateTotalPoints [simp]:
  "gameState (updateTotalPoints p s) = gameState s"
  by (cases p) simp_all

lemma gameState_updateEndTurnButton [simp]:
  "gameState (updateEndTurnButton s) = gameState s"
  by (simp add: updateEndTurnButton_def)

lemma gameState_updatePoints [simp]:
  "gameState (updatePoints p s) = gameState s"
  by (cases p) simp_all

lemma knock_setFlag:
  "knockButtonPressed (setFlag f v g) = (if f = KnockButtonPressed then v else knockButtonPressed g)"
  by (cases f) simp_all

section \<open>The top of a container\<close>

lemma fold_top_cases:
  "fold (\<lambda>current highest. if depth current > depth highest then current else highest) cards c0
     = c0
   \<or> fold (\<lambda>current highest. if depth current > depth highest then current else highest) cards c0
     \<in> set cards"
proof (induction cards arbitrary: c0)
  case Nil
  show ?case by simp
next
  case (Cons c cards)
  show ?case
    using Cons.IH [of c] Cons.IH [of c0] by auto
qed

lemma fold_top_ge_init:
  "depth c0 \<le> depth (fold (\<lambda>current highest. if depth current > depth highest then current else highest) cards c0)"
proof (induction cards arbitrary: c0)
  case Nil
  show ?case by simp
next
  case (Cons c cards)
  show ?case
    using Cons.IH [of c] Cons.IH [of c0] by (auto intro: order_trans less_imp_le)
qed

lemma fold_top_ge_all:
  "c \<in> set cards \<Longrightarrow>
   depth c \<le> depth (fold (\<lambda>current highest. if depth current > depth highest then current else highest) cards c0)"
proof (induction cards arbitrary: c0)
  case Nil
  then show ?case by simp
next
  case (Cons d cards)
  show ?case
  proof (cases "c = d")
    case True
    have "depth d \<le> depth (if depth c0 < depth d then d else c0)" by simp
    also have "\<dots> \<le> depth (fold (\<lambda>current highest. if depth current > depth highest then current else highest)
        cards (if depth c0 < depth d then d else c0))"
      by (rule fold_top_ge_init)
    finally show ?thesis using True by simp
  next
    case False
    with Cons.prems have "c \<in> set cards" by simp
    then show ?thesis using Cons.IH by simp
  qed
qed

lemma topByDepth_Some:
  assumes "cards \<noteq> []"
  shows "\<exists>top. topByDepth cards = Some top \<and> top \<in> set cards
           \<and> (\<forall>c \<in> set cards. depth c \<le> depth top)"
proof -
  from assms obtain c0 rest where cs: "cards = c0 # rest" by (cases cards) auto
  let ?top = "fold (\<lambda>current highest. if depth current > depth highest then current else highest) cards c0"
  have 1: "topByDepth cards = Some ?top" by (simp add: topByDepth_def cs)
  have 2: "?top \<in> set cards" using fold_top_cases [of cards c0] cs by auto
  have 3: "\<forall>c \<in> set cards. depth c \<le> depth ?top" using fold_top_ge_all by blast
  from 1 2 3 show ?thesis by blast
qed

section \<open>Drawing the top card of the deck\<close>

text \<open>
  C8 (as stated): drawing from an empty deck fails with \<open>EmptyDeckError\<close>. The code
  returns at once instead (\<^verbatim>\<open>if (deck.length === 0) return;\<close>) and throws nothing.
\<close>

theorem C8_empty_deck_counterexample:
  "moveTopCardToPlayer [] \<noteq> Inl EmptyDeckError \<and> moveTopCardToPlayer [] = Inr None"
  by (simp add: moveTopCardToPlayer_def)

lemma length_addToHand [simp]: "length (addToHand p c h) = Suc (length h)"
  by (cases p) simp_all

lemma moveTopCardToPlayer_nonempty:
  assumes "cards \<noteq> []"
  shows "\<exists>topCard. moveTopCardToPlayer cards = Inr (Some (topCard, remove1 topCard cards))
         \<and> topCard \<in> set cards \<and> (\<forall>c \<in> set cards. depth c \<le> depth topCard)
         \<and> length (remove1 topCard cards) + 1 = length cards"
proof -
  from assms obtain topCard where t: "topByDepth cards = Some topCard" "topCard \<in> set cards"
    "\<And>c. c \<in> set cards \<Longrightarrow> depth c \<le> depth topCard"
    using topByDepth_Some [of cards] by blast
  have "moveTopCardToPlayer cards = Inr (Some (topCard, remove1 topCard cards))"
    using assms t(1) by (simp add: moveTopCardToPlayer_def)
  moreover have "length (remove1 topCard cards) + 1 = length cards"
    using t(2) assms by (simp add: length_remove1 Suc_pred)
  ultimately show ?thesis using t(2,3) by blast
qed

lemma moveCardToPlayer_accepted:
  assumes "\<not> drawRejected p (gameState s)"
    and "moveTopCardToPlayer (sourceContainer src s) = Inr (Some (topCard, rest))"
  shows "playerContainer p (moveCardToPlayer src p s) = addToHand p topCard (playerContainer p s)"
    and "sourceContainer src (moveCardToPlayer src p s) = rest"
  using assms
  by (cases p; cases src; simp add: moveCardToPlayer_def Let_def updateEndTurnButton_def)+

lemma moveCardToPlayer_empty:
  assumes "\<not> drawRejected p (gameState s)" "sourceContainer src s = []"
  shows "moveCardToPlayer src p s
          = updateGameState CardsInteractable False (updateGameState IsAnimating True s)"
  using assms by (cases p) (simp_all add: moveCardToPlayer_def moveTopCardToPlayer_def)

text \<open>
  C8 (amended): drawing from a non-empty deck takes its top card (a card of the deck
  of greatest depth) and leaves the remaining deck, and a draw request that is not
  rejected hands that card to the player: it becomes the last card of the player's hand
  and the source keeps the rest. On an empty deck the draw returns without a fault and
  without drawing, and a draw request that is not rejected then changes no container
  and only raises \<open>isAnimating\<close> and lowers \<open>cardsInteractable\<close>, its completion never
  running.
\<close>

theorem C8_draw_top:
  "(cards \<noteq> [] \<longrightarrow>
      (\<exists>top. moveTopCardToPlayer cards = Inr (Some (top, remove1 top cards))
         \<and> top \<in> set cards \<and> (\<forall>c \<in> set cards. depth c \<le> depth top)
         \<and> length (remove1 top cards) + 1 = length cards))
   \<and> (sourceContainer src s \<noteq> [] \<and> \<not> drawRejected p (gameState s) \<longrightarrow>
        (\<exists>top. moveTopCardToPlayer (sourceContainer src s)
                  = Inr (Some (top, remove1 top (sourceContainer src s)))
           \<and> playerContainer p (moveCardToPlayer src p s)
               = addToHand p top (playerContainer p s)
           \<and> cardData (last (playerContainer p (moveCardToPlayer src p s))) = cardData top
           \<and> length (playerContainer p (moveCardToPlayer src p s))
               = length (playerContainer p s) + 1
           \<and> sourceContainer src (moveCardToPlayer src p s)
               = remove1 top (sourceContainer src s)))
   \<and> moveTopCardToPlayer [] = Inr None
   \<and> (sourceContainer src s = [] \<and> \<not> drawRejected p (gameState s) \<longrightarrow>
        moveCardToPlayer src p s
          = updateGameState CardsInteractable False (updateGameState IsAnimating True s))"
proof (intro conjI impI)
  assume "cards \<noteq> []"
  from moveTopCardToPlayer_nonempty [OF this]
  show "\<exists>top. moveTopCardToPlayer cards = Inr (Some (top, remove1 top cards))
         \<and> top \<in> set cards \<and> (\<forall>c \<in> set cards. depth c \<le> depth top)
         \<and> length (remove1 top cards) + 1 = length cards" .
next
  assume a: "sourceContainer src s \<noteq> [] \<and> \<not> drawRejected p (gameState s)"
  then obtain topCard where
    t: "moveTopCardToPlayer (sourceContainer src s)
          = Inr (Some (topCard, remove1 topCard (sourceContainer src s)))"
    using moveTopCardToPlayer_nonempty [of "sourceContainer src s"] by blast
  from a have nr: "\<not> drawRejected p (gameState s)" by simp
  note h = moveCardToPlayer_accepted [OF nr t]
  have "cardData (last (addToHand p topCard (playerContainer p s))) = cardData topCard"
    by (cases p) simp_all
  with t h show "\<exists>top. moveTopCardToPlayer (sourceContainer src s)
                  = Inr (Some (top, remove1 top (sourceContainer src s)))
           \<and> playerContainer p (moveCardToPlayer src p s)
               = addToHand p top (playerContainer p s)
           \<and> cardData (last (playerContainer p (moveCardToPlayer src p s))) = cardData top
           \<and> length (playerContainer p (moveCardToPlayer src p s))
               = length (playerContainer p s) + 1
           \<and> sourceContainer src (moveCardToPlayer src p s)
               = remove1 top (sourceContainer src s)"
    by (intro exI [of _ topCard]) simp
next
  show "moveTopCardToPlayer [] = Inr None" by (simp add: moveTopCardToPlayer_def)
next
  assume "sourceContainer src s = [] \<and> \<not> drawRejected p (gameState s)"
  then show "moveCardToPlayer src p s
          = updateGameState CardsInteractable False (updateGameState IsAnimating True s)"
    using moveCardToPlayer_empty [of p s src] by simp
qed

theorem C8_draw_top_witness:
  "moveTopCardToPlayer twoCardDeck
     = Inr (Some (mkSprite Clubs King 1, [mkSprite Hearts Five 0]))
   \<and> player2Container (moveCardToPlayer FromDeck Player2 midTurnScene)
       = player2Container midTurnScene @ [mkSprite Clubs King 1]
   \<and> deckContainer (moveCardToPlayer FromDeck Player2 midTurnScene) = [mkSprite Hearts Five 0]"
proof -
  have ne: "twoCardDeck \<noteq> []" by (simp add: twoCardDeck_def)
  have src: "sourceContainer FromDeck midTurnScene = twoCardDeck"
    by (simp add: midTurnScene_def)
  have nr: "\<not> drawRejected Player2 (gameState midTurnScene)"
    by (simp add: midTurnScene_def)
  note drawn = C8_draw_top [of twoCardDeck FromDeck midTurnScene Player2, unfolded src]
  from drawn ne
  obtain t1 where t1: "moveTopCardToPlayer twoCardDeck = Inr (Some (t1, remove1 t1 twoCardDeck))"
    "\<forall>c \<in> set twoCardDeck. depth c \<le> depth t1" "t1 \<in> set twoCardDeck"
    by blast
  from t1(2,3) have k: "t1 = mkSprite Clubs King 1"
    by (auto simp: twoCardDeck_def mkSprite_def)
  from drawn ne nr
  obtain t2 where t2: "moveTopCardToPlayer twoCardDeck = Inr (Some (t2, remove1 t2 twoCardDeck))"
    "playerContainer Player2 (moveCardToPlayer FromDeck Player2 midTurnScene)
       = addToHand Player2 t2 (playerContainer Player2 midTurnScene)"
    "sourceContainer FromDeck (moveCardToPlayer FromDeck Player2 midTurnScene)
       = remove1 t2 twoCardDeck"
    by blast
  from t1(1) t2(1) k have k2: "t2 = mkSprite Clubs King 1" by simp
  from t1(1) t2(2,3) show ?thesis unfolding k k2
    by (simp add: twoCardDeck_def mkSprite_def)
qed

section \<open>Rejected draws and discards\<close>

lemma moveCardToPlayer_fixed:
  "moveCardToPlayer src p s = s \<longleftrightarrow> drawRejected p (gameState s)"
proof
  assume "drawRejected p (gameState s)"
  then show "moveCardToPlayer src p s = s" by (simp add: moveCardToPlayer_def)
next
  assume eq: "moveCardToPlayer src p s = s"
  show "drawRejected p (gameState s)"
  proof (rule ccontr)
    assume nr: "\<not> drawRejected p (gameState s)"
    show False
    proof (cases "sourceContainer src s = []")
      case True
      have "isAnimating (gameState (updateGameState CardsInteractable False
              (updateGameState IsAnimating True s)))"
        by (simp add: updateGameState_def)
      with moveCardToPlayer_empty [OF nr True] eq have "isAnimating (gameState s)" by simp
      with nr show False by (cases p) simp_all
    next
      case False
      from moveTopCardToPlayer_nonempty [OF False] obtain topCard where
        t: "moveTopCardToPlayer (sourceContainer src s)
              = Inr (Some (topCard, remove1 topCard (sourceContainer src s)))"
        by blast
      from moveCardToPlayer_accepted(1) [OF nr t] eq
      have "playerContainer p s = addToHand p topCard (playerContainer p s)" by simp
      then have "length (playerContainer p s)
                   = length (addToHand p topCard (playerContainer p s))" by simp
      then show False by simp
    qed
  qed
qed

lemma discardCard_fixed:
  "discardCard c p s = s \<longleftrightarrow> discardRejected p (gameState s)"
proof
  assume "discardRejected p (gameState s)"
  then show "discardCard c p s = s" by (simp add: discardCard_def)
next
  assume eq: "discardCard c p s = s"
  show "discardRejected p (gameState s)"
  proof (rule ccontr)
    assume nr: "\<not> discardRejected p (gameState s)"
    then have "length (discardPileContainer (discardCard c p s))
                 = Suc (length (discardPileContainer s))"
      by (cases p)
        (simp_all add: discardCard_def discardCardFromPlayer_def Let_def updateEndTurnButton_def)
    with eq show False by simp
  qed
qed

text \<open>
  C5 (as stated): whenever the guard of a draw or of a discard fails, the attempt
  changes nothing. With the guards of the specification this fails for the opponent,
  whose draws and discards the code does not gate on the turn or on the draw and discard
  flags. In the middle of the human's turn (a card drawn, a discard owed) the
  specification's draw guard fails for the opponent, and \<^verbatim>\<open>moveCardToPlayer\<close> still gives
  the opponent a fourth card; with no discard owed the specification's discard guard
  fails, and \<^verbatim>\<open>discardCard\<close> still takes a card out of the opponent's hand.
\<close>

theorem C5_opponent_guard_counterexample:
  "\<not> specDrawGuard Player2 (gameState midTurnScene)
   \<and> moveCardToPlayer FromDeck Player2 midTurnScene \<noteq> midTurnScene
   \<and> length (player2Container midTurnScene) = 3
   \<and> length (player2Container (moveCardToPlayer FromDeck Player2 midTurnScene)) = 4
   \<and> \<not> specDiscardGuard Player2 (mkSprite Clubs Nine 7) emptyDeckScene
   \<and> mkSprite Clubs Nine 7 \<in> set (player2Container emptyDeckScene)
   \<and> discardCard (mkSprite Clubs Nine 7) Player2 emptyDeckScene \<noteq> emptyDeckScene
   \<and> length (player2Container (discardCard (mkSprite Clubs Nine 7) Player2 emptyDeckScene)) = 2"
  by code_simp

text \<open>
  C5 (amended): a draw or a discard changes nothing, and throws nothing, exactly when
  the guard of \<^verbatim>\<open>moveCardToPlayer\<close> or of \<^verbatim>\<open>discardCard\<close> rejects it. For the human
  the guard tests the turn, the draw and discard flags, the knock and the animation;
  for the opponent it tests the knock and the animation only, the other checks being
  bypassed. For the human's clicks the guards of the specification are covered as
  well: a click on the deck or the discard pile outside (own turn, no discard owed,
  nothing drawn, no knock, no animation) and a click on a hand card outside (discard
  owed, none made, card in the hand, no knock, no animation) return the scene as it
  was.
\<close>

theorem C5_rejected_transition_changes_nothing:
  "(moveCardToPlayer src p s = s \<longleftrightarrow> drawRejected p (gameState s))
   \<and> (discardCard c p s = s \<longleftrightarrow> discardRejected p (gameState s))
   \<and> (drawRejected Player2 (gameState s)
        \<longleftrightarrow> knockButtonPressed (gameState s) \<or> isAnimating (gameState s))
   \<and> (discardRejected Player2 (gameState s)
        \<longleftrightarrow> knockButtonPressed (gameState s) \<or> isAnimating (gameState s))
   \<and> (\<not> specDrawGuard Player1 (gameState s) \<longrightarrow>
        drawRejected Player1 (gameState s) \<or> mustDiscard (gameState s))
   \<and> (\<not> (isPlayerTurn (gameState s) \<and> \<not> mustDiscard (gameState s)
          \<and> \<not> hasDrawnCard (gameState s) \<and> \<not> knockButtonPressed (gameState s)
          \<and> \<not> isAnimating (gameState s)) \<longrightarrow>
        handle ClickDeckCard s = Inr s \<and> handle ClickDiscardPileCard s = Inr s)
   \<and> (\<not> (mustDiscard (gameState s) \<and> \<not> hasDiscardedCard (gameState s)
          \<and> i < length (player1Container s) \<and> \<not> knockButtonPressed (gameState s)
          \<and> \<not> isAnimating (gameState s)) \<longrightarrow>
        handle (ClickHandCard i) s = Inr s)"
proof (intro conjI impI)
  show "moveCardToPlayer src p s = s \<longleftrightarrow> drawRejected p (gameState s)"
    by (rule moveCardToPlayer_fixed)
next
  show "discardCard c p s = s \<longleftrightarrow> discardRejected p (gameState s)"
    by (rule discardCard_fixed)
next
  show "drawRejected Player2 (gameState s)
        \<longleftrightarrow> knockButtonPressed (gameState s) \<or> isAnimating (gameState s)" by simp
next
  show "discardRejected Player2 (gameState s)
        \<longleftrightarrow> knockButtonPressed (gameState s) \<or> isAnimating (gameState s)" by simp
next
  assume "\<not> specDrawGuard Player1 (gameState s)"
  then show "drawRejected Player1 (gameState s) \<or> mustDiscard (gameState s)"
    by (auto simp: specDrawGuard_def)
next
  assume g: "\<not> (isPlayerTurn (gameState s) \<and> \<not> mustDiscard (gameState s)
          \<and> \<not> hasDrawnCard (gameState s) \<and> \<not> knockButtonPressed (gameState s)
          \<and> \<not> isAnimating (gameState s))"
  then show "handle ClickDeckCard s = Inr s"
    by (auto simp: Let_def moveCardToPlayer_def)
  from g show "handle ClickDiscardPileCard s = Inr s"
    by (auto simp: Let_def moveCardToPlayer_def)
next
  assume "\<not> (mustDiscard (gameState s) \<and> \<not> hasDiscardedCard (gameState s)
          \<and> i < length (player1Container s) \<and> \<not> knockButtonPressed (gameState s)
          \<and> \<not> isAnimating (gameState s))"
  then show "handle (ClickHandCard i) s = Inr s"
    by (auto simp: Let_def player1Discard_def)
qed

theorem C5_rejected_transition_witness:
  "drawRejected Player1 (gameState midTurnScene)
   \<and> moveCardToPlayer FromDeck Player1 midTurnScene = midTurnScene
   \<and> discardRejected Player2 (gameState knockedScene)
   \<and> discardCard (mkSprite Hearts King 7) Player2 knockedScene = knockedScene
   \<and> handle ClickDeckCard midTurnScene = Inr midTurnScene
   \<and> handle ClickDiscardPileCard midTurnScene = Inr midTurnScene
   \<and> handle (ClickHandCard 4) midTurnScene = Inr midTurnScene
   \<and> handle (ClickHandCard 0) knockedScene = Inr knockedScene"
proof -
  have a: "drawRejected Player1 (gameState midTurnScene)"
    by (simp add: midTurnScene_def)
  have b: "discardRejected Player2 (gameState knockedScene)"
    by (simp add: knockedScene_def knock_def midTurnScene_def)
  have c: "\<not> (isPlayerTurn (gameState midTurnScene) \<and> \<not> mustDiscard (gameState midTurnScene)
          \<and> \<not> hasDrawnCard (gameState midTurnScene)
          \<and> \<not> knockButtonPressed (gameState midTurnScene)
          \<and> \<not> isAnimating (gameState midTurnScene))"
    by (simp add: midTurnScene_def)
  have d: "\<not> (mustDiscard (gameState midTurnScene) \<and> \<not> hasDiscardedCard (gameState midTurnScene)
          \<and> 4 < length (player1Container midTurnScene)
          \<and> \<not> knockButtonPressed (gameState midTurnScene)
          \<and> \<not> isAnimating (gameState midTurnScene))"
    by (simp add: midTurnScene_def)
  have e: "\<not> (mustDiscard (gameState knockedScene) \<and> \<not> hasDiscardedCard (gameState knockedScene)
          \<and> 0 < length (player1Container knockedScene)
          \<and> \<not> knockButtonPressed (gameState knockedScene)
          \<and> \<not> isAnimating (gameState knockedScene))"
    by (simp add: knockedScene_def knock_def midTurnScene_def)
  note m = C5_rejected_transition_changes_nothing
             [of FromDeck Player1 midTurnScene "mkSprite Hearts King 7" 4]
  note k = C5_rejected_transition_changes_nothing
             [of FromDeck Player2 knockedScene "mkSprite Hearts King 7" 0]
  from m a have m1: "moveCardToPlayer FromDeck Player1 midTurnScene = midTurnScene"
    by (elim conjE) simp
  from m c have m2: "handle ClickDeckCard midTurnScene = Inr midTurnScene"
    "handle ClickDiscardPileCard midTurnScene = Inr midTurnScene"
    by (elim conjE, simp)+
  from m d have m3: "handle (ClickHandCard 4) midTurnScene = Inr midTurnScene"
    by (elim conjE) simp
  from k b have k1: "discardCard (mkSprite Hearts King 7) Player2 knockedScene = knockedScene"
    by (elim conjE) simp
  from k e have k2: "handle (ClickHandCard 0) knockedScene = Inr knockedScene"
    by (elim conjE) simp
  from a b m1 m2 m3 k1 k2 show ?thesis by (intro conjI)
qed

section \<open>The knock flag\<close>

lemma gameState_discardCardFromPlayer [simp]:
  "gameState (discardCardFromPlayer c p s) = gameState s"
  by (cases p) (simp_all add: discardCardFromPlayer_def Let_def)

lemma knock_moveCardToPlayer:
  "knockButtonPressed (gameState (moveCardToPlayer src p s)) = knockButtonPressed (gameState s)"
  by (simp add: moveCardToPlayer_def Let_def knock_setFlag split: sum.splits option.splits prod.splits)

lemma knock_discardCard:
  "knockButtonPressed (gameState (discardCard c p s)) = knockButtonPressed (gameState s)"
  by (simp add: discardCard_def Let_def knock_setFlag)

lemma knock_discardSettled:
  "knockButtonPressed (gameState (discardSettled p s)) = knockButtonPressed (gameState s)"
  by (simp add: discardSettled_def Let_def knock_setFlag)

lemma knock_knock: "knockButtonPressed (gameState (knock s))"
  by (simp add: knock_def Let_def)

lemma knock_startPlayer1Turn:
  "knockButtonPressed (gameState (startPlayer1Turn s)) = knockButtonPressed (gameState s)"
  by (simp add: startPlayer1Turn_def)

lemma knock_onEndTurn:
  "knockButtonPressed (gameState (onEndTurn s)) = knockButtonPressed (gameState s)"
  by (simp add: onEndTurn_def Let_def)

lemma gameState_flipPlayer2Cards [simp]:
  "gameState (flipPlayer2Cards s) = gameState s"
  by (simp add: flipPlayer2Cards_def)

lemma knock_player2Draw:
  "knockButtonPressed (gameState (player2Draw rnd1 s)) = knockButtonPressed (gameState s)"
  by (simp add: player2Draw_def knock_moveCardToPlayer)

lemma knock_player2DiscardStep:
  "knockButtonPressed (gameState s) \<Longrightarrow>
   knockButtonPressed (gameState (player2DiscardStep rnd2 rnd3 s))"
  by (simp add: player2DiscardStep_def Let_def knock_knock knock_startPlayer1Turn
      knock_discardSettled knock_discardCard split: option.splits)

lemma knock_handle:
  assumes "handle e s = Inr s'" "\<not> isRestart e" "knockButtonPressed (gameState s)"
  shows "knockButtonPressed (gameState s')"
proof (cases e)
  case ClickDeckCard
  with assms show ?thesis by (auto simp: Let_def knock_moveCardToPlayer split: if_splits)
next
  case ClickDiscardPileCard
  with assms show ?thesis by (auto simp: Let_def knock_moveCardToPlayer split: if_splits)
next
  case (ClickHandCard i)
  with assms show ?thesis
    by (auto simp: Let_def player1Discard_def knock_discardSettled knock_discardCard
        split: if_splits)
next
  case ClickKnock
  with assms show ?thesis by (auto simp: Let_def knock_knock split: if_splits)
next
  case (ClickEndTurn r1 r2 r3)
  with assms show ?thesis
    by (auto simp: executePlayer2Turn_def knock_player2DiscardStep knock_player2Draw
        knock_onEndTurn split: if_splits)
next
  case ClickSortByRank
  with assms show ?thesis by (auto split: if_splits)
next
  case ClickSortBySuit
  with assms show ?thesis by (auto split: if_splits)
next
  case (ClickRestart shuffled)
  with assms show ?thesis by simp
qed

lemma knock_run:
  "run es s = Inr s' \<Longrightarrow> \<not> list_ex isRestart es \<Longrightarrow> knockButtonPressed (gameState s) \<Longrightarrow>
   knockButtonPressed (gameState s')"
proof (induction es arbitrary: s)
  case Nil
  then show ?case by simp
next
  case (Cons e es)
  from Cons.prems(1) obtain s1 where h: "handle e s = Inr s1" and r: "run es s1 = Inr s'"
    by (auto split: sum.splits)
  from Cons.prems(2) have ne: "\<not> isRestart e" and nes: "\<not> list_ex isRestart es" by simp_all
  from h ne Cons.prems(3) have "knockButtonPressed (gameState s1)" by (rule knock_handle)
  with Cons.IH [OF r nes] show ?case .
qed

lemma length_sortedDeck [simp]: "length (sortedDeck d) = length d"
  by (simp add: sortedDeck_def)

lemma length_createDeck [simp]: "length (createDeck shuffled) = length shuffled"
  by (simp add: createDeck_def)

lemma gameState_dealCard [simp]: "gameState (dealCard sortedCards i s) = gameState s"
  by (simp add: dealCard_def Let_def)

lemma gameState_fold_dealCard [simp]:
  "gameState (fold (dealCard sortedCards) is s) = gameState s"
  by (induction "is" arbitrary: s) simp_all

lemma gameState_moveCardToDiscardPile [simp]:
  "gameState (moveCardToDiscardPile c s) = gameState s"
  by (simp add: moveCardToDiscardPile_def Let_def)

lemma startSession_flags:
  "startSession shuffled = Inr s' \<Longrightarrow>
   gameState s' = resetFlags\<lparr>animationComplete := True, cardsInteractable := True\<rparr>"
  by (auto simp: startSession_def dealCards_def Let_def initialScene_def resetFlags_def
      split: if_splits)

text \<open>
  C7: \<open>knockButtonPressed\<close> is monotonic. Along every run without a restart click the
  flag, once true, stays true (the two writes of the flag in the handlers, the human's
  knock and \<^verbatim>\<open>player2Knock\<close>, write \<open>true\<close>); an accepted restart is the one
  operation that clears it.
\<close>

theorem C7_knock_flag_monotonic:
  "(run es s = Inr s' \<and> \<not> list_ex isRestart es \<and> knockButtonPressed (gameState s)
      \<longrightarrow> knockButtonPressed (gameState s'))
   \<and> (handle (ClickRestart shuffled) s = Inr s'' \<and> knockButtonPressed (gameState s)
      \<longrightarrow> \<not> knockButtonPressed (gameState s''))"
proof (intro conjI impI)
  assume "run es s = Inr s' \<and> \<not> list_ex isRestart es \<and> knockButtonPressed (gameState s)"
  then show "knockButtonPressed (gameState s')" using knock_run by blast
next
  assume a: "handle (ClickRestart shuffled) s = Inr s'' \<and> knockButtonPressed (gameState s)"
  then have "startSession shuffled = Inr s''" by auto
  then show "\<not> knockButtonPressed (gameState s'')"
    by (simp add: startSession_flags resetFlags_def)
qed

section \<open>The opponent's discard against the specification's rule\<close>

lemma firstSeen_snoc:
  "firstSeen (xs @ [x]) = (if x \<in> set xs then firstSeen xs else firstSeen xs @ [x])"
  by (simp add: firstSeen_def)

lemma set_firstSeen [simp]: "set (firstSeen xs) = set xs"
  by (simp add: firstSeen_def)

lemma distinct_firstSeen [simp]: "distinct (firstSeen xs)"
  by (simp add: firstSeen_def)

lemma map_of_tabulate:
  "map_of (map (\<lambda>k. (k, f k)) ks) k = (if k \<in> set ks then Some (f k) else None)"
  by (induction ks) auto

lemma update_tabulate_new:
  "k \<notin> set ks \<Longrightarrow>
   AList.update k v (map (\<lambda>k'. (k', f k')) ks) = map (\<lambda>k'. (k', (f(k := v)) k')) ks @ [(k, v)]"
  by (induction ks) auto

lemma update_tabulate_old:
  "k \<in> set ks \<Longrightarrow> distinct ks \<Longrightarrow>
   AList.update k v (map (\<lambda>k'. (k', f k')) ks) = map (\<lambda>k'. (k', (f(k := v)) k')) ks"
  by (induction ks) (auto simp: update_tabulate_new)

lemma tally_fold:
  "fold (tally key h z) cs []
     = map (\<lambda>s. (s, fold h (filter (\<lambda>c. key c = s) cs) z)) (firstSeen (map key cs))"
proof (induction cs rule: rev_induct)
  case Nil
  show ?case by (simp add: firstSeen_def)
next
  case (snoc c cs)
  let ?F = "\<lambda>cs s. fold h (filter (\<lambda>c. key c = s) cs) z"
  let ?ks = "firstSeen (map key cs)"
  have step: "fold (tally key h z) (cs @ [c]) [] = tally key h z c (map (\<lambda>s. (s, ?F cs s)) ?ks)"
    using snoc.IH by simp
  have upd: "(?F cs)(key c := h c (?F cs (key c))) = ?F (cs @ [c])"
    by (rule ext) simp
  show ?case
  proof (cases "key c \<in> set (map key cs)")
    case True
    then have in_ks: "key c \<in> set ?ks" by simp
    have "tally key h z c (map (\<lambda>s. (s, ?F cs s)) ?ks)
            = map (\<lambda>s. (s, ((?F cs)(key c := h c (?F cs (key c)))) s)) ?ks"
      using in_ks by (simp add: tally_def map_of_tabulate update_tabulate_old)
    with step upd True show ?thesis by (simp add: firstSeen_snoc)
  next
    case False
    then have nin: "key c \<notin> set ?ks" by simp
    from False have empty: "filter (\<lambda>c'. key c' = key c) cs = []"
      by (induction cs) auto
    have "tally key h z c (map (\<lambda>s. (s, ?F cs s)) ?ks)
            = map (\<lambda>s. (s, ((?F cs)(key c := h c z)) s)) ?ks @ [(key c, h c z)]"
      using nin by (simp add: tally_def map_of_tabulate update_tabulate_new)
    moreover have "(?F cs)(key c := h c z) = ?F (cs @ [c])"
      using upd empty by simp
    moreover have "?F (cs @ [c]) (key c) = h c z" using empty by simp
    ultimately show ?thesis using step False by (simp add: firstSeen_snoc)
  qed
qed

lemma fold_add: "fold (\<lambda>c v. v + g c) xs (z::nat) = z + sum_list (map g xs)"
  by (induction xs arbitrary: z) simp_all

lemma fold_snoc_list: "fold (\<lambda>c v. v @ [f c]) xs z = z @ map f xs"
  by (induction xs arbitrary: z) simp_all

lemma collectSuitPoints_eq:
  "collectSuitPoints cards = map (\<lambda>s. (s, suitTotal cards s)) (suitsInOrder cards)"
proof -
  have eq: "suitPointsStep = tally suitOf (\<lambda>c v. v + getCardValue c) 0"
    by (intro ext) (simp add: suitPointsStep_def tally_def Let_def)
  show ?thesis
    unfolding collectSuitPoints_def eq tally_fold
    by (simp add: fold_add suitTotal_def cardsOfSuit_def suitsInOrder_def)
qed

lemma collectSuitCards_eq:
  "collectSuitCards cards
     = map (\<lambda>s. (s, map (\<lambda>c. (c, getCardValue c)) (cardsOfSuit s cards))) (suitsInOrder cards)"
proof -
  have eq: "suitCardsStep = tally suitOf (\<lambda>c v. v @ [(c, getCardValue c)]) []"
    by (intro ext) (simp add: suitCardsStep_def tally_def Let_def)
  show ?thesis
    unfolding collectSuitCards_def eq tally_fold
    by (simp add: fold_snoc_list cardsOfSuit_def suitsInOrder_def)
qed

lemma strongest_fold:
  "fold strongestStep (map (\<lambda>s. (s, T s)) ks) (b, h)
     = (if h < Max (insert 0 (T ` set ks))
        then (List.find (\<lambda>s. T s = Max (insert 0 (T ` set ks))) ks, Max (insert 0 (T ` set ks)))
        else (b, h))"
proof (induction ks arbitrary: b h)
  case Nil
  show ?case by simp
next
  case (Cons k ks)
  let ?M = "Max (insert 0 (T ` set ks))"
  have "Max (insert (T k) (insert 0 (T ` set ks))) = max (T k) ?M"
    by (rule Max_insert) auto
  then have M': "Max (insert 0 (T ` set (k # ks))) = max (T k) ?M"
    by (simp add: insert_commute)
  show ?case
  proof (cases "h < T k")
    case True
    then have "fold strongestStep (map (\<lambda>s. (s, T s)) (k # ks)) (b, h)
               = fold strongestStep (map (\<lambda>s. (s, T s)) ks) (Some k, T k)"
      by (simp add: strongestStep_def)
    also have "\<dots> = (if T k < ?M then (List.find (\<lambda>s. T s = ?M) ks, ?M) else (Some k, T k))"
      by (rule Cons.IH)
    finally show ?thesis using True unfolding M' by (auto simp: max_def)
  next
    case False
    then have "fold strongestStep (map (\<lambda>s. (s, T s)) (k # ks)) (b, h)
               = fold strongestStep (map (\<lambda>s. (s, T s)) ks) (b, h)"
      by (simp add: strongestStep_def)
    also have "\<dots> = (if h < ?M then (List.find (\<lambda>s. T s = ?M) ks, ?M) else (b, h))"
      by (rule Cons.IH)
    finally show ?thesis using False unfolding M' by (auto simp: max_def)
  qed
qed

lemma discardStrongestSuit_eq:
  "discardStrongestSuit cards
     = (if 0 < greatestTotal cards
        then List.find (\<lambda>s. suitTotal cards s = greatestTotal cards) (suitsInOrder cards)
        else None)"
  by (simp add: discardStrongestSuit_def strongestLoop_def collectSuitPoints_eq strongest_fold
      greatestTotal_def)

lemma worst_fold:
  "fold worstStep (map (\<lambda>c. (c, v c)) cs) (w, l)
     = (if cs \<noteq> [] \<and> enat (v (arg_min_list v cs)) < l
        then (Some (arg_min_list v cs), enat (v (arg_min_list v cs))) else (w, l))"
proof (induction cs arbitrary: w l)
  case Nil
  show ?case by simp
next
  case (Cons x xs)
  show ?case
  proof (cases xs)
    case Nil
    then show ?thesis by (simp add: worstStep_def)
  next
    case (Cons y ys)
    let ?m = "arg_min_list v xs"
    have am: "arg_min_list v (x # xs) = (if v x \<le> v ?m then x else ?m)"
      using Cons by (simp add: Let_def)
    have ne: "xs \<noteq> []" using Cons by simp
    show ?thesis
    proof (cases "enat (v x) < l")
      case True
      then have "fold worstStep (map (\<lambda>c. (c, v c)) (x # xs)) (w, l)
                 = fold worstStep (map (\<lambda>c. (c, v c)) xs) (Some x, enat (v x))"
        by (simp add: worstStep_def)
      also have "\<dots> = (if xs \<noteq> [] \<and> enat (v ?m) < enat (v x)
                        then (Some ?m, enat (v ?m)) else (Some x, enat (v x)))"
        by (rule Cons.IH)
      finally have f: "fold worstStep (map (\<lambda>c. (c, v c)) (x # xs)) (w, l)
          = (if v ?m < v x then (Some ?m, enat (v ?m)) else (Some x, enat (v x)))"
        using ne by simp
      show ?thesis
      proof (cases "v ?m < v x")
        case True
        then have "enat (v ?m) < enat (v x)" by simp
        with \<open>enat (v x) < l\<close> have "enat (v ?m) < l" by (meson less_trans)
        with f am True show ?thesis by simp
      next
        case False
        with f am \<open>enat (v x) < l\<close> show ?thesis by simp
      qed
    next
      case False
      then have "fold worstStep (map (\<lambda>c. (c, v c)) (x # xs)) (w, l)
                 = fold worstStep (map (\<lambda>c. (c, v c)) xs) (w, l)"
        by (simp add: worstStep_def)
      also have "\<dots> = (if xs \<noteq> [] \<and> enat (v ?m) < l then (Some ?m, enat (v ?m)) else (w, l))"
        by (rule Cons.IH)
      finally have f: "fold worstStep (map (\<lambda>c. (c, v c)) (x # xs)) (w, l)
          = (if enat (v ?m) < l then (Some ?m, enat (v ?m)) else (w, l))"
        using ne by simp
      from False have lx: "l \<le> enat (v x)" by simp
      show ?thesis
      proof (cases "enat (v ?m) < l")
        case True
        with lx have "enat (v ?m) < enat (v x)" by (meson less_le_trans)
        then have "\<not> v x \<le> v ?m" by simp
        with f am True show ?thesis by simp
      next
        case False
        then have "\<not> enat (v (arg_min_list v (x # xs))) < l"
          using am \<open>\<not> enat (v x) < l\<close> by auto
        with f False show ?thesis by simp
      qed
    qed
  qed
qed

lemma scan_fold:
  "fold (\<lambda>(s, es) acc. if Some s \<noteq> st then fold worstStep es acc else acc)
      (map (\<lambda>s. (s, map f (G s))) ks) acc
   = fold worstStep (map f (concat (map G (filter (\<lambda>s. Some s \<noteq> st) ks)))) acc"
  by (induction ks arbitrary: acc) simp_all

lemma scanOtherSuits_eq:
  "scanOtherSuits st (collectSuitCards cards)
     = (if otherSuitCards cards st \<noteq> []
        then (Some (firstLowest (otherSuitCards cards st)),
              enat (getCardValue (firstLowest (otherSuitCards cards st))))
        else (None, \<infinity>))"
  unfolding scanOtherSuits_def collectSuitCards_eq scan_fold worst_fold
  by (simp add: otherSuitCards_def firstLowest_def)

lemma hd_insort_key:
  "hd (insort_key f x ys) = (if ys = [] \<or> f x \<le> f (hd ys) then x else hd ys)"
  by (cases ys) simp_all

lemma sort_key_Nil_iff [simp]: "sort_key f xs = [] \<longleftrightarrow> xs = []"
  by (metis length_0_conv length_sort)

lemma hd_sort_key: "xs \<noteq> [] \<Longrightarrow> hd (sort_key f xs) = arg_min_list f xs"
proof (induction xs)
  case Nil
  then show ?case by simp
next
  case (Cons x xs)
  show ?case
  proof (cases xs)
    case Nil
    then show ?thesis by simp
  next
    case (Cons y ys)
    then have ne: "xs \<noteq> []" by simp
    have am: "arg_min_list f (x # xs) = (if f x \<le> f (arg_min_list f xs) then x else arg_min_list f xs)"
      using Cons by (simp add: Let_def)
    show ?thesis using Cons.IH [OF ne] ne am by (simp add: hd_insort_key)
  qed
qed

lemma arg_min_list_map:
  "xs \<noteq> [] \<Longrightarrow> arg_min_list f (map g xs) = g (arg_min_list (\<lambda>x. f (g x)) xs)"
proof (induction xs)
  case Nil
  then show ?case by simp
next
  case (Cons x xs)
  show ?case
  proof (cases xs)
    case Nil
    then show ?thesis by simp
  next
    case (Cons y ys)
    then have ne: "xs \<noteq> []" by simp
    from Cons.IH [OF ne] Cons show ?thesis by (simp add: Let_def)
  qed
qed

lemma lowestOfStrongest_eq:
  assumes "s \<in> set (suitsInOrder cards)"
  shows "lowestOfStrongest s (collectSuitCards cards) = Some (firstLowest (cardsOfSuit s cards))"
proof -
  from assms have "s \<in> suitOf ` set cards" by (simp add: suitsInOrder_def)
  then have ne: "cardsOfSuit s cards \<noteq> []"
    by (auto simp: cardsOfSuit_def filter_empty_conv)
  let ?es = "map (\<lambda>c. (c, getCardValue c)) (cardsOfSuit s cards)"
  have look: "map_of (collectSuitCards cards) s = Some ?es"
    using assms by (simp add: collectSuitCards_eq map_of_tabulate)
  from ne have ne': "?es \<noteq> []" by simp
  then obtain e rest where srt: "sort_key snd ?es = e # rest"
    by (cases "sort_key snd ?es") auto
  have "e = hd (sort_key snd ?es)" using srt by simp
  also have "\<dots> = arg_min_list snd ?es" using ne' by (rule hd_sort_key)
  also have "\<dots> = (\<lambda>c. (c, getCardValue c)) (arg_min_list getCardValue (cardsOfSuit s cards))"
    using ne by (simp add: arg_min_list_map)
  finally have "fst e = firstLowest (cardsOfSuit s cards)" by (simp add: firstLowest_def)
  with look srt show ?thesis by (simp add: lowestOfStrongest_def)
qed

lemma rankOrder_pos: "0 < rankOrder r"
  by (cases r) simp_all

lemma getCardValue_pos: "0 < getCardValue c"
  by (simp add: getCardValue_def rankOrder_pos)

lemma value_le_suitTotal: "c \<in> set cards \<Longrightarrow> getCardValue c \<le> suitTotal cards (suitOf c)"
proof -
  assume "c \<in> set cards"
  then have "getCardValue c \<in> set (map getCardValue (cardsOfSuit (suitOf c) cards))"
    by (simp add: cardsOfSuit_def)
  then show ?thesis unfolding suitTotal_def by (simp add: member_le_sum_list)
qed

lemma suitTotal_le_greatest:
  "s \<in> set (suitsInOrder cards) \<Longrightarrow> suitTotal cards s \<le> greatestTotal cards"
  unfolding greatestTotal_def by (intro Max_ge) auto

lemma greatestTotal_pos: "cards \<noteq> [] \<Longrightarrow> 0 < greatestTotal cards"
proof -
  assume "cards \<noteq> []"
  then obtain c where c: "c \<in> set cards" by (cases cards) auto
  then have "suitOf c \<in> set (suitsInOrder cards)" by (simp add: suitsInOrder_def)
  then have "suitTotal cards (suitOf c) \<le> greatestTotal cards" by (rule suitTotal_le_greatest)
  with value_le_suitTotal [OF c] getCardValue_pos [of c] show ?thesis by linarith
qed

lemma greatestTotal_attained:
  assumes "cards \<noteq> []"
  shows "\<exists>s \<in> set (suitsInOrder cards). suitTotal cards s = greatestTotal cards"
proof -
  have "greatestTotal cards \<in> insert 0 (suitTotal cards ` set (suitsInOrder cards))"
    unfolding greatestTotal_def by (intro Max_in) auto
  with greatestTotal_pos [OF assms] show ?thesis by auto
qed

lemma strongest_exists:
  assumes "cards \<noteq> []"
  shows "\<exists>s0. discardStrongestSuit cards = Some s0
           \<and> List.find (\<lambda>s. suitTotal cards s = greatestTotal cards) (suitsInOrder cards) = Some s0
           \<and> s0 \<in> set (suitsInOrder cards) \<and> suitTotal cards s0 = greatestTotal cards"
proof -
  from greatestTotal_attained [OF assms]
  obtain s0 where f: "List.find (\<lambda>s. suitTotal cards s = greatestTotal cards) (suitsInOrder cards) = Some s0"
    by (cases "List.find (\<lambda>s. suitTotal cards s = greatestTotal cards) (suitsInOrder cards)")
       (auto simp: find_None_iff)
  then have "s0 \<in> set (suitsInOrder cards)" "suitTotal cards s0 = greatestTotal cards"
    by (auto simp: find_Some_iff)
  with f greatestTotal_pos [OF assms] show ?thesis by (simp add: discardStrongestSuit_eq)
qed

lemma set_otherSuitCards:
  "set (otherSuitCards cards st) = {c \<in> set cards. Some (suitOf c) \<noteq> st}"
  by (auto simp: otherSuitCards_def cardsOfSuit_def suitsInOrder_def)

lemma findWorst_eq:
  assumes "3 < length cards"
  shows "findWorstCardConsideringSuits cards = Some (chooseDiscard cards)"
proof -
  from assms have ne: "cards \<noteq> []" by auto
  from strongest_exists [OF ne] obtain s0 where
    st: "discardStrongestSuit cards = Some s0"
    and fi: "List.find (\<lambda>s. suitTotal cards s = greatestTotal cards) (suitsInOrder cards) = Some s0"
    and mem: "s0 \<in> set (suitsInOrder cards)" by blast
  from st have st': "fst (strongestLoop (collectSuitPoints cards)) = Some s0"
    by (simp add: discardStrongestSuit_def)
  show ?thesis
  proof (cases "otherSuitCards cards (Some s0) = []")
    case False
    then show ?thesis using assms st' fi
      by (simp add: findWorstCardConsideringSuits_def Let_def scanOtherSuits_eq chooseDiscard_def)
  next
    case True
    then have "\<forall>c \<in> set cards. suitOf c = s0"
      using set_otherSuitCards [of cards "Some s0"] by auto
    then have all: "cardsOfSuit s0 cards = cards" by (simp add: cardsOfSuit_def)
    show ?thesis using assms st' fi True lowestOfStrongest_eq [OF mem] all
      by (simp add: findWorstCardConsideringSuits_def Let_def scanOtherSuits_eq chooseDiscard_def)
  qed
qed

lemma firstLowest_in: "xs \<noteq> [] \<Longrightarrow> firstLowest xs \<in> set xs"
  by (simp add: firstLowest_def arg_min_list_in)

lemma firstLowest_le: "c \<in> set xs \<Longrightarrow> getCardValue (firstLowest xs) \<le> getCardValue c"
proof -
  assume c: "c \<in> set xs"
  then have ne: "xs \<noteq> []" by auto
  have "getCardValue (firstLowest xs) = Min (getCardValue ` set xs)"
    using ne by (simp add: firstLowest_def f_arg_min_list_f)
  also have "\<dots> \<le> getCardValue c" using c by (intro Min_le) auto
  finally show ?thesis .
qed

lemma arg_min_list_first:
  "xs \<noteq> [] \<Longrightarrow> c \<in> set (takeWhile (\<lambda>c. c \<noteq> arg_min_list f xs) xs) \<Longrightarrow>
   f (arg_min_list f xs) < f c"
proof (induction xs)
  case Nil
  then show ?case by simp
next
  case (Cons x xs)
  show ?case
  proof (cases xs)
    case Nil
    with Cons.prems show ?thesis by simp
  next
    case (Cons y ys)
    then have ne: "xs \<noteq> []" by simp
    let ?m = "arg_min_list f xs"
    have am: "arg_min_list f (x # xs) = (if f x \<le> f ?m then x else ?m)"
      using Cons by (simp add: Let_def)
    show ?thesis
    proof (cases "f x \<le> f ?m")
      case True
      with am Cons.prems(2) show ?thesis by simp
    next
      case False
      then have m: "arg_min_list f (x # xs) = ?m" and lt: "f ?m < f x" using am by auto
      from lt have "x \<noteq> ?m" by auto
      with Cons.prems(2) m have "c = x \<or> c \<in> set (takeWhile (\<lambda>c. c \<noteq> ?m) xs)" by auto
      then show ?thesis using lt Cons.IH [OF ne] m by auto
    qed
  qed
qed

lemma firstLowest_first:
  assumes "c \<in> set (takeWhile (\<lambda>c. c \<noteq> firstLowest xs) xs)"
  shows "getCardValue (firstLowest xs) < getCardValue c"
proof -
  from assms have ne: "xs \<noteq> []" by auto
  from assms have "c \<in> set (takeWhile (\<lambda>c. c \<noteq> arg_min_list getCardValue xs) xs)"
    by (simp add: firstLowest_def)
  with ne have "getCardValue (arg_min_list getCardValue xs) < getCardValue c"
    by (rule arg_min_list_first)
  then show ?thesis by (simp add: firstLowest_def)
qed

lemma find_first:
  assumes "List.find Q xs = Some x" "y \<in> set (takeWhile (\<lambda>y. y \<noteq> x) xs)"
  shows "\<not> Q y"
  using assms
proof (induction xs)
  case Nil
  then show ?case by simp
next
  case (Cons z zs)
  show ?case
  proof (cases "Q z")
    case True
    with Cons.prems show ?thesis by simp
  next
    case False
    from Cons.prems(1) False have f: "List.find Q zs = Some x" by simp
    show ?thesis
    proof (cases "y = z")
      case True
      with False show ?thesis by simp
    next
      case ne: False
      have "z \<noteq> x"
      proof
        assume "z = x"
        with Cons.prems(2) show False by simp
      qed
      with Cons.prems(2) ne have "y \<in> set (takeWhile (\<lambda>y. y \<noteq> x) zs)" by simp
      with Cons.IH [OF f] show ?thesis .
    qed
  qed
qed

text \<open>
  C4 (as stated): ties between candidates are broken by first occurrence in hand order.
  In the hand ace of clubs, 3 of spades, 2 of hearts, 2 of spades the strongest suit is
  Clubs and the two deuces tie; the 2 of hearts comes first in the hand, yet the code
  returns the 2 of spades, because it scans the candidates suit by suit.
\<close>

theorem C4_tie_counterexample:
  "findWorstCardConsideringSuits tieHand = Some (mkSprite Spades Two 20)
   \<and> discardStrongestSuit tieHand = Some Clubs
   \<and> firstLowest (filter (\<lambda>c. suitOf c \<noteq> Clubs) tieHand) = mkSprite Hearts Two 26"
  by (simp add: tieHand_def ai_eval_defs firstLowest_def)

text \<open>
  C4 (amended): for every hand of more than three cards the strongest suit is the first
  suit, in order of first appearance in the hand, whose total is greatest, and
  \<^verbatim>\<open>findWorstCardConsideringSuits\<close> returns a card of the hand: when some card lies
  outside the strongest suit, a card of lowest value among those, ties going to the
  first candidate in the order the code scans them (suit by suit in order of first
  appearance, within a suit in hand order); when the hand is mono-suit, the card of
  lowest value, ties going to the first in hand order. The last fallback of the source
  (lowest card of the whole hand) is never reached.
\<close>

theorem C4_discard_choice:
  assumes "3 < length cards"
  shows "\<exists>s0. discardStrongestSuit cards = Some s0
           \<and> s0 \<in> suitOf ` set cards
           \<and> (\<forall>c \<in> set cards. suitTotal cards (suitOf c) \<le> suitTotal cards s0)
           \<and> (\<forall>t \<in> set (takeWhile (\<lambda>t. t \<noteq> s0) (suitsInOrder cards)).
                 suitTotal cards t < suitTotal cards s0)
           \<and> findWorstCardConsideringSuits cards = Some (chooseDiscard cards)
           \<and> chooseDiscard cards \<in> set cards
           \<and> ((\<exists>c \<in> set cards. suitOf c \<noteq> s0) \<longrightarrow>
                 chooseDiscard cards = firstLowest (otherSuitCards cards (Some s0))
                 \<and> suitOf (chooseDiscard cards) \<noteq> s0
                 \<and> (\<forall>c \<in> set cards. suitOf c \<noteq> s0 \<longrightarrow>
                       getCardValue (chooseDiscard cards) \<le> getCardValue c)
                 \<and> (\<forall>c \<in> set (takeWhile (\<lambda>c. c \<noteq> chooseDiscard cards)
                                 (otherSuitCards cards (Some s0))).
                       getCardValue (chooseDiscard cards) < getCardValue c))
           \<and> ((\<forall>c \<in> set cards. suitOf c = s0) \<longrightarrow>
                 chooseDiscard cards = firstLowest cards
                 \<and> (\<forall>c \<in> set cards. getCardValue (chooseDiscard cards) \<le> getCardValue c)
                 \<and> (\<forall>c \<in> set (takeWhile (\<lambda>c. c \<noteq> chooseDiscard cards) cards).
                       getCardValue (chooseDiscard cards) < getCardValue c))"
proof -
  from assms have ne: "cards \<noteq> []" by auto
  from strongest_exists [OF ne] obtain s0 where
    st: "discardStrongestSuit cards = Some s0"
    and fi: "List.find (\<lambda>s. suitTotal cards s = greatestTotal cards) (suitsInOrder cards) = Some s0"
    and mem: "s0 \<in> set (suitsInOrder cards)"
    and tot: "suitTotal cards s0 = greatestTotal cards" by blast
  let ?others = "otherSuitCards cards (Some s0)"
  have others_set: "set ?others = {c \<in> set cards. suitOf c \<noteq> s0}"
    by (auto simp: set_otherSuitCards)
  have choose: "chooseDiscard cards = (if ?others \<noteq> [] then firstLowest ?others else firstLowest cards)"
    by (simp add: chooseDiscard_def fi)
  have 1: "s0 \<in> suitOf ` set cards" using mem by (simp add: suitsInOrder_def)
  have 2: "\<forall>c \<in> set cards. suitTotal cards (suitOf c) \<le> suitTotal cards s0"
    using tot by (simp add: suitTotal_le_greatest suitsInOrder_def)
  have 3: "\<forall>t \<in> set (takeWhile (\<lambda>t. t \<noteq> s0) (suitsInOrder cards)).
             suitTotal cards t < suitTotal cards s0"
  proof
    fix t assume t: "t \<in> set (takeWhile (\<lambda>t. t \<noteq> s0) (suitsInOrder cards))"
    then have "t \<in> set (suitsInOrder cards)" by (rule set_takeWhileD [THEN conjunct1])
    then have "suitTotal cards t \<le> greatestTotal cards" by (rule suitTotal_le_greatest)
    moreover have "suitTotal cards t \<noteq> greatestTotal cards" using find_first [OF fi t] .
    ultimately show "suitTotal cards t < suitTotal cards s0" using tot by simp
  qed
  have 4: "findWorstCardConsideringSuits cards = Some (chooseDiscard cards)"
    using assms by (rule findWorst_eq)
  have 5: "chooseDiscard cards \<in> set cards"
  proof (cases "?others = []")
    case True
    with choose ne show ?thesis by (simp add: firstLowest_in)
  next
    case False
    then have "firstLowest ?others \<in> set ?others" by (rule firstLowest_in)
    with choose False others_set show ?thesis by auto
  qed
  have 6: "(\<exists>c \<in> set cards. suitOf c \<noteq> s0) \<longrightarrow>
                 chooseDiscard cards = firstLowest ?others
                 \<and> suitOf (chooseDiscard cards) \<noteq> s0
                 \<and> (\<forall>c \<in> set cards. suitOf c \<noteq> s0 \<longrightarrow>
                       getCardValue (chooseDiscard cards) \<le> getCardValue c)
                 \<and> (\<forall>c \<in> set (takeWhile (\<lambda>c. c \<noteq> chooseDiscard cards) ?others).
                       getCardValue (chooseDiscard cards) < getCardValue c)"
  proof
    assume "\<exists>c \<in> set cards. suitOf c \<noteq> s0"
    then have one: "?others \<noteq> []" using others_set by auto
    then have ch: "chooseDiscard cards = firstLowest ?others" using choose by simp
    have "firstLowest ?others \<in> set ?others" using one by (rule firstLowest_in)
    then have a: "suitOf (chooseDiscard cards) \<noteq> s0" using ch others_set by auto
    have b: "\<forall>c \<in> set cards. suitOf c \<noteq> s0 \<longrightarrow>
               getCardValue (chooseDiscard cards) \<le> getCardValue c"
      using ch others_set firstLowest_le [of _ ?others] by auto
    have c: "\<forall>c \<in> set (takeWhile (\<lambda>c. c \<noteq> chooseDiscard cards) ?others).
               getCardValue (chooseDiscard cards) < getCardValue c"
      using ch firstLowest_first [of _ ?others] by auto
    from ch a b c show "chooseDiscard cards = firstLowest ?others
                 \<and> suitOf (chooseDiscard cards) \<noteq> s0
                 \<and> (\<forall>c \<in> set cards. suitOf c \<noteq> s0 \<longrightarrow>
                       getCardValue (chooseDiscard cards) \<le> getCardValue c)
                 \<and> (\<forall>c \<in> set (takeWhile (\<lambda>c. c \<noteq> chooseDiscard cards) ?others).
                       getCardValue (chooseDiscard cards) < getCardValue c)" by blast
  qed
  have 7: "(\<forall>c \<in> set cards. suitOf c = s0) \<longrightarrow>
                 chooseDiscard cards = firstLowest cards
                 \<and> (\<forall>c \<in> set cards. getCardValue (chooseDiscard cards) \<le> getCardValue c)
                 \<and> (\<forall>c \<in> set (takeWhile (\<lambda>c. c \<noteq> chooseDiscard cards) cards).
                       getCardValue (chooseDiscard cards) < getCardValue c)"
  proof
    assume "\<forall>c \<in> set cards. suitOf c = s0"
    then have "set ?others = {}" using others_set by auto
    then have ch: "chooseDiscard cards = firstLowest cards" using choose by simp
    then show "chooseDiscard cards = firstLowest cards
                 \<and> (\<forall>c \<in> set cards. getCardValue (chooseDiscard cards) \<le> getCardValue c)
                 \<and> (\<forall>c \<in> set (takeWhile (\<lambda>c. c \<noteq> chooseDiscard cards) cards).
                       getCardValue (chooseDiscard cards) < getCardValue c)"
      using firstLowest_le [of _ cards] firstLowest_first [of _ cards] by auto
  qed
  from st 1 2 3 4 5 6 7 show ?thesis by blast
qed

theorem C4_discard_choice_witness:
  "3 < length tieHand
   \<and> findWorstCardConsideringSuits tieHand = Some (chooseDiscard tieHand)
   \<and> chooseDiscard tieHand = mkSprite Spades Two 20"
proof -
  have len: "3 < length tieHand" by (simp add: tieHand_def)
  from C4_discard_choice [OF len]
  have eq: "findWorstCardConsideringSuits tieHand = Some (chooseDiscard tieHand)" by blast
  have "findWorstCardConsideringSuits tieHand = Some (mkSprite Spades Two 20)"
    by (simp add: tieHand_def ai_eval_defs)
  with eq len show ?thesis by simp
qed

section \<open>The opponent's draw against the specification's rule\<close>

lemma Max_Cons:
  fixes P :: "'a \<Rightarrow> nat"
  assumes "ks \<noteq> []"
  shows "Max (P ` set (k # ks)) = max (P k) (Max (P ` set ks))"
proof -
  have "Max (insert (P k) (P ` set ks)) = max (P k) (Max (P ` set ks))"
    using assms by (intro Max_insert) auto
  then show ?thesis by simp
qed

lemma Max_attained:
  fixes P :: "'a \<Rightarrow> nat"
  assumes "ks \<noteq> []"
  shows "filter (\<lambda>s. P s = Max (P ` set ks)) ks \<noteq> []"
proof -
  have "Max (P ` set ks) \<in> P ` set ks" using assms by (intro Max_in) auto
  then obtain s where "s \<in> set ks" "P s = Max (P ` set ks)" by auto
  then show ?thesis by (auto simp: filter_empty_conv)
qed

lemma reduce_last_max:
  fixes P :: "'a \<Rightarrow> nat"
  shows "fold (\<lambda>b a. if P a > P b then a else b) ks a
           = (if \<forall>b \<in> set ks. P b < P a then a
              else last (filter (\<lambda>s. P s = Max (P ` set ks)) ks))"
proof (induction ks arbitrary: a)
  case Nil
  show ?case by simp
next
  case (Cons k ks)
  let ?g = "\<lambda>b a. if P a > P b then a else b"
  let ?M = "Max (P ` set ks)"
  let ?M' = "Max (P ` set (k # ks))"
  have ge: "\<And>b. b \<in> set ks \<Longrightarrow> P b \<le> ?M" by (intro Max_ge) auto
  show ?case
  proof (cases "P k < P a")
    case True
    then have step: "fold ?g (k # ks) a = fold ?g ks a" by simp
    show ?thesis
    proof (cases "\<forall>b \<in> set ks. P b < P a")
      case all: True
      with True step Cons.IH [of a] show ?thesis by simp
    next
      case ex: False
      then obtain b where b: "b \<in> set ks" "P a \<le> P b" by (auto simp: not_less)
      then have ne: "ks \<noteq> []" by auto
      from ge [OF b(1)] b(2) True have lt: "P k < ?M" by simp
      then have M': "?M' = ?M" using Max_Cons [OF ne, of P k] by (simp add: max_def)
      from lt have "filter (\<lambda>s. P s = ?M) (k # ks) = filter (\<lambda>s. P s = ?M) ks" by simp
      with ex step Cons.IH [of a] M' show ?thesis by auto
    qed
  next
    case False
    then have step: "fold ?g (k # ks) a = fold ?g ks k" by simp
    from False have notall: "\<not> (\<forall>b \<in> set (k # ks). P b < P a)" by auto
    show ?thesis
    proof (cases "\<forall>b \<in> set ks. P b < P k")
      case all: True
      have M': "?M' = P k"
      proof (cases "ks = []")
        case True
        then show ?thesis by simp
      next
        case ne: False
        have "?M \<in> P ` set ks" using ne by (intro Max_in) auto
        with all have "?M < P k" by auto
        then show ?thesis using Max_Cons [OF ne, of P k] by (simp add: max_def)
      qed
      from all have "filter (\<lambda>s. P s = P k) ks = []" by (auto simp: filter_empty_conv)
      then have "filter (\<lambda>s. P s = ?M') (k # ks) = [k]" using M' by simp
      with False step Cons.IH [of k] all show ?thesis by simp
    next
      case ex: False
      then obtain b where b: "b \<in> set ks" "P k \<le> P b" by (auto simp: not_less)
      then have ne: "ks \<noteq> []" by auto
      from ge [OF b(1)] b(2) have le: "P k \<le> ?M" by simp
      then have M': "?M' = ?M" using Max_Cons [OF ne, of P k] by (simp add: max_def)
      have F: "filter (\<lambda>s. P s = ?M) ks \<noteq> []" using ne by (rule Max_attained)
      then have "last (filter (\<lambda>s. P s = ?M) (k # ks)) = last (filter (\<lambda>s. P s = ?M) ks)"
        by simp
      with False step Cons.IH [of k] ex M' show ?thesis by simp
    qed
  qed
qed

lemma firstSeen_map_inj:
  assumes "inj g"
  shows "firstSeen (map (\<lambda>c. g (f c)) cs) = map g (firstSeen (map f cs))"
proof (induction cs rule: rev_induct)
  case Nil
  show ?case by (simp add: firstSeen_def)
next
  case (snoc c cs)
  have "g (f c) \<in> (\<lambda>c. g (f c)) ` set cs \<longleftrightarrow> f c \<in> f ` set cs"
    using assms by (auto dest: injD)
  with snoc.IH show ?case by (simp add: firstSeen_snoc)
qed

lemma inj_getSuitSymbol: "inj getSuitSymbol"
proof (rule injI)
  fix x y assume "getSuitSymbol x = getSuitSymbol y"
  then show "x = y" by (cases x; cases y) simp_all
qed

lemma name_of_symbol [simp]: "getSuitNameFromSymbol (Some (getSuitSymbol s)) = Some s"
  by (cases s) simp_all

lemma pointsBySuit_eq:
  "pointsBySuit hand = map (\<lambda>s. (getSuitSymbol s, suitTotal hand s)) (suitsInOrder hand)"
proof -
  have eq: "pointsStep = tally (\<lambda>c. getSuitSymbol (suitOf c)) (\<lambda>c v. v + getCardValue c) 0"
    by (intro ext) (simp add: pointsStep_def tally_def Let_def getCardValue_def)
  have filt: "\<And>s. filter (\<lambda>c. getSuitSymbol (suitOf c) = getSuitSymbol s) hand
                   = filter (\<lambda>c. suitOf c = s) hand"
    using inj_getSuitSymbol by (auto dest: injD intro: filter_cong)
  show ?thesis
    unfolding pointsBySuit_def eq tally_fold firstSeen_map_inj [OF inj_getSuitSymbol]
    by (simp add: fold_add suitTotal_def cardsOfSuit_def suitsInOrder_def filt comp_def)
qed

lemma pointsOf_pointsBySuit:
  "s \<in> set (suitsInOrder hand) \<Longrightarrow>
   pointsOf (pointsBySuit hand) (getSuitSymbol s) = suitTotal hand s"
proof -
  assume s: "s \<in> set (suitsInOrder hand)"
  have "map_of (map (\<lambda>s. (getSuitSymbol s, suitTotal hand s)) ks) (getSuitSymbol s)
          = (if s \<in> set ks then Some (suitTotal hand s) else None)" for ks
    using inj_getSuitSymbol by (induction ks) (auto dest: injD)
  with s show ?thesis by (simp add: pointsOf_def pointsBySuit_eq)
qed

lemma greatestTotal_Max:
  "hand \<noteq> [] \<Longrightarrow> greatestTotal hand = Max (suitTotal hand ` set (suitsInOrder hand))"
proof -
  assume "hand \<noteq> []"
  then have ne: "suitTotal hand ` set (suitsInOrder hand) \<noteq> {}" by (simp add: suitsInOrder_def)
  have "Max (insert 0 (suitTotal hand ` set (suitsInOrder hand)))
          = max 0 (Max (suitTotal hand ` set (suitsInOrder hand)))"
    using ne by (intro Max_insert) auto
  then show ?thesis by (simp add: greatestTotal_def)
qed

lemma strongestSymbol_eq:
  "strongestSymbol (pointsBySuit hand)
     = (if hand = [] then None else Some (getSuitSymbol (lastStrongest hand)))"
proof (cases "hand = []")
  case True
  then show ?thesis by (simp add: strongestSymbol_def pointsBySuit_def)
next
  case False
  let ?ks = "suitsInOrder hand"
  let ?P = "pointsOf (pointsBySuit hand)"
  let ?keys = "map getSuitSymbol ?ks"
  from False have ne: "?ks \<noteq> []" by (auto simp: suitsInOrder_def firstSeen_def)
  then obtain k0 rest where ks: "?ks = k0 # rest" by (cases ?ks) auto
  have keys: "map fst (pointsBySuit hand) = ?keys" by (simp add: pointsBySuit_eq comp_def)
  have P: "\<And>s. s \<in> set ?ks \<Longrightarrow> ?P (getSuitSymbol s) = suitTotal hand s"
    by (rule pointsOf_pointsBySuit)
  have img: "?P ` set ?keys = suitTotal hand ` set ?ks"
    using P by (auto simp: image_iff)
  have M: "Max (?P ` set ?keys) = greatestTotal hand"
    using img greatestTotal_Max [OF False] by simp
  have nall: "\<not> (\<forall>b \<in> set ?keys. ?P b < ?P (getSuitSymbol k0))" using ks by auto
  have "fold (\<lambda>b a. if ?P a > ?P b then a else b) ?keys (getSuitSymbol k0)
               = (if \<forall>b \<in> set ?keys. ?P b < ?P (getSuitSymbol k0) then getSuitSymbol k0
                  else last (filter (\<lambda>k. ?P k = Max (?P ` set ?keys)) ?keys))"
    by (rule reduce_last_max)
  also have "\<dots> = last (filter (\<lambda>k. ?P k = Max (?P ` set ?keys)) ?keys)"
    using nall by (rule if_not_P)
  also have "filter (\<lambda>k. ?P k = Max (?P ` set ?keys)) ?keys
               = map getSuitSymbol (filter (\<lambda>s. suitTotal hand s = greatestTotal hand) ?ks)"
  proof -
    have "filter (\<lambda>s. ?P (getSuitSymbol s) = greatestTotal hand) ?ks
            = filter (\<lambda>s. suitTotal hand s = greatestTotal hand) ?ks"
      by (rule filter_cong) (simp_all add: P)
    then show ?thesis unfolding M by (simp add: filter_map comp_def)
  qed
  also have "last \<dots> = getSuitSymbol (lastStrongest hand)"
    using greatestTotal_attained [OF False]
    by (simp add: lastStrongest_def last_map filter_empty_conv)
  finally have "fold (\<lambda>b a. if ?P a > ?P b then a else b) ?keys (getSuitSymbol k0)
                  = getSuitSymbol (lastStrongest hand)" .
  then show ?thesis using False keys ks by (simp add: strongestSymbol_def)
qed

lemma dropWhile_upto:
  "x \<notin> set pre \<Longrightarrow> dropWhile (\<lambda>t. t \<noteq> x) (pre @ x # post) = x # post"
  by (induction pre) auto

lemma fold_count: "fold (\<lambda>c. Suc) xs z = z + length xs"
  by (induction xs arbitrary: z) simp_all

lemma suitCounts_truthy:
  "(case map_of (suitCounts hand) s of None \<Rightarrow> False | Some n \<Rightarrow> n \<noteq> 0)
     = (\<exists>c \<in> set hand. suitOf c = s)"
proof -
  have eq: "suitCountsStep = tally suitOf (\<lambda>c v. v + 1) 0"
    by (intro ext) (simp add: suitCountsStep_def tally_def)
  have "suitCounts hand = map (\<lambda>s. (s, length (filter (\<lambda>c. suitOf c = s) hand))) (firstSeen (map suitOf hand))"
    unfolding suitCounts_def eq tally_fold by (simp add: fold_count)
  then show ?thesis
    by (auto simp: map_of_tabulate filter_empty_conv)
qed

lemma lastStrongest_props:
  assumes "hand \<noteq> []"
  shows "lastStrongest hand \<in> suitOf ` set hand"
    and "\<forall>c \<in> set hand. suitTotal hand (suitOf c) \<le> suitTotal hand (lastStrongest hand)"
    and "\<forall>t \<in> set (tl (dropWhile (\<lambda>t. t \<noteq> lastStrongest hand) (suitsInOrder hand))).
           suitTotal hand t < suitTotal hand (lastStrongest hand)"
proof -
  let ?ks = "suitsInOrder hand"
  let ?Q = "\<lambda>s. suitTotal hand s = greatestTotal hand"
  let ?F = "filter ?Q ?ks"
  from greatestTotal_attained [OF assms] have F: "?F \<noteq> []" by (simp add: filter_empty_conv)
  then have "last ?F \<in> set ?F" by (rule last_in_set)
  then have mem: "lastStrongest hand \<in> set ?ks" and tot: "?Q (lastStrongest hand)"
    by (simp_all add: lastStrongest_def)
  from mem show "lastStrongest hand \<in> suitOf ` set hand" by (simp add: suitsInOrder_def)
  show "\<forall>c \<in> set hand. suitTotal hand (suitOf c) \<le> suitTotal hand (lastStrongest hand)"
    using tot by (simp add: suitTotal_le_greatest suitsInOrder_def)
  show "\<forall>t \<in> set (tl (dropWhile (\<lambda>t. t \<noteq> lastStrongest hand) ?ks)).
           suitTotal hand t < suitTotal hand (lastStrongest hand)"
  proof
    fix t assume t: "t \<in> set (tl (dropWhile (\<lambda>t. t \<noteq> lastStrongest hand) ?ks))"
    from mem obtain pre post where split: "?ks = pre @ lastStrongest hand # post"
      and pre: "lastStrongest hand \<notin> set pre"
      by (auto dest: split_list_first)
    then have dw: "dropWhile (\<lambda>t. t \<noteq> lastStrongest hand) ?ks = lastStrongest hand # post"
      by (simp add: dropWhile_upto)
    with t have tp: "t \<in> set post" by simp
    have dist: "distinct ?ks" by (simp add: suitsInOrder_def)
    with split tp have neq: "t \<noteq> lastStrongest hand" by auto
    from split tp have tin: "t \<in> set ?ks" by simp
    have "\<not> ?Q t"
    proof
      assume q: "?Q t"
      have "?F = filter ?Q pre @ (lastStrongest hand # filter ?Q post)"
        using split tot by simp
      moreover from q tp have "filter ?Q post \<noteq> []" by (auto simp: filter_empty_conv)
      ultimately have "last ?F = last (filter ?Q post)" by simp
      moreover have "last (filter ?Q post) \<in> set post"
        using \<open>filter ?Q post \<noteq> []\<close> last_in_set [of "filter ?Q post"] by auto
      ultimately have "lastStrongest hand \<in> set post" by (simp add: lastStrongest_def)
      with dist split show False by auto
    qed
    moreover have "suitTotal hand t \<le> greatestTotal hand" using tin by (rule suitTotal_le_greatest)
    ultimately show "suitTotal hand t < suitTotal hand (lastStrongest hand)" using tot by simp
  qed
qed

lemmas draw_eval_defs = drawFromDiscard_def topDiscardCard_def suitCounts_def suitCountsStep_def
  pointsBySuit_def pointsStep_def strongestSymbol_def pointsOf_def getCardValue_def suitOf_def
  mkSprite_def

text \<open>
  C2 (as stated): ties between suits go to the first suit encountered. In the hand
  5 of hearts, 5 of spades, 2 of clubs, Hearts is the first suit with the greatest total
  (5, tied with Spades); the only card of the discard pile is the 3 of hearts, of that
  suit, yet the code does not take it: its reducer keeps the later suit on a tie.
\<close>

theorem C2_tie_counterexample:
  "collectSuitPoints tieDrawHand = [(Hearts, 5), (Spades, 5), (Clubs, 2)]
   \<and> suitOf (mkSprite Hearts Three 11) = Hearts
   \<and> \<not> drawFromDiscard tieDrawHand (topDiscardCard [mkSprite Hearts Three 11]) (1 / 2)"
  by (simp add: tieDrawHand_def draw_eval_defs collectSuitPoints_def suitPointsStep_def)

text \<open>
  C2 (amended): with an empty discard pile the opponent draws from the deck. Otherwise
  the code examines one card of the pile and takes the discard pile exactly when that
  card's suit is the strongest suit of the hand, or its value is at least 10 and the
  hand holds a card of its suit, or its value is 11 and the random value exceeds 0.2.
  The strongest suit is a suit of the hand of greatest total; among suits of equal
  total it is the one whose first card comes last in the hand.
\<close>

theorem C2_draw_source:
  "\<not> drawFromDiscard hand None rnd
   \<and> topDiscardCard [] = None
   \<and> (discardPileContainer s = [] \<longrightarrow> player2Draw rnd s = moveCardToPlayer FromDeck Player2 s)
   \<and> player2Draw rnd s
       = moveCardToPlayer
           (if drawFromDiscard (player2Container s) (topDiscardCard (discardPileContainer s)) rnd
            then FromDiscardPile else FromDeck) Player2 s
   \<and> (hand \<noteq> [] \<longrightarrow>
        drawFromDiscard hand (Some c) rnd
          = (suitOf c = lastStrongest hand
             \<or> (10 \<le> getCardValue c \<and> (\<exists>h \<in> set hand. suitOf h = suitOf c))
             \<or> (getCardValue c = 11 \<and> 0.2 < rnd))
        \<and> lastStrongest hand \<in> suitOf ` set hand
        \<and> (\<forall>h \<in> set hand. suitTotal hand (suitOf h) \<le> suitTotal hand (lastStrongest hand))
        \<and> (\<forall>t \<in> set (tl (dropWhile (\<lambda>t. t \<noteq> lastStrongest hand) (suitsInOrder hand))).
              suitTotal hand t < suitTotal hand (lastStrongest hand)))"
proof (intro conjI impI)
  show "\<not> drawFromDiscard hand None rnd" by (simp add: drawFromDiscard_def)
  show "topDiscardCard [] = None" by (simp add: topDiscardCard_def)
  show "player2Draw rnd s = moveCardToPlayer FromDeck Player2 s" if "discardPileContainer s = []"
    using that by (simp add: player2Draw_def topDiscardCard_def drawFromDiscard_def)
  show "player2Draw rnd s
       = moveCardToPlayer
           (if drawFromDiscard (player2Container s) (topDiscardCard (discardPileContainer s)) rnd
            then FromDiscardPile else FromDeck) Player2 s"
    by (simp add: player2Draw_def)
next
  assume ne: "hand \<noteq> []"
  then show "drawFromDiscard hand (Some c) rnd
          = (suitOf c = lastStrongest hand
             \<or> (10 \<le> getCardValue c \<and> (\<exists>h \<in> set hand. suitOf h = suitOf c))
             \<or> (getCardValue c = 11 \<and> 0.2 < rnd))"
    by (auto simp: drawFromDiscard_def Let_def strongestSymbol_eq suitCounts_truthy)
  from lastStrongest_props [OF ne]
  show "lastStrongest hand \<in> suitOf ` set hand"
    and "\<forall>h \<in> set hand. suitTotal hand (suitOf h) \<le> suitTotal hand (lastStrongest hand)"
    and "\<forall>t \<in> set (tl (dropWhile (\<lambda>t. t \<noteq> lastStrongest hand) (suitsInOrder hand))).
              suitTotal hand t < suitTotal hand (lastStrongest hand)"
    by blast+
qed

theorem C2_draw_source_witness:
  "tieDrawHand \<noteq> []
   \<and> lastStrongest tieDrawHand \<noteq> Hearts
   \<and> \<not> drawFromDiscard tieDrawHand (Some (mkSprite Hearts Three 11)) (1 / 2)
   \<and> drawFromDiscard tieDrawHand (Some (mkSprite Diamonds Ace 11)) (1 / 2)
   \<and> player2Draw (1 / 2) (midTurnScene\<lparr>discardPileContainer := []\<rparr>)
       = moveCardToPlayer FromDeck Player2 (midTurnScene\<lparr>discardPileContainer := []\<rparr>)"
proof -
  have ne: "tieDrawHand \<noteq> []" by (simp add: tieDrawHand_def)
  have e: "discardPileContainer (midTurnScene\<lparr>discardPileContainer := []\<rparr>) = []" by simp
  have v: "getCardValue (mkSprite Hearts Three 11) = 3" "suitOf (mkSprite Hearts Three 11) = Hearts"
    "getCardValue (mkSprite Diamonds Ace 11) = 11"
    by (simp_all add: getCardValue_def suitOf_def mkSprite_def)
  have no: "\<not> drawFromDiscard tieDrawHand (Some (mkSprite Hearts Three 11)) (1 / 2)"
    by (simp add: tieDrawHand_def draw_eval_defs)
  from C2_draw_source [of tieDrawHand "1 / 2" "midTurnScene\<lparr>discardPileContainer := []\<rparr>"
      "mkSprite Hearts Three 11"] ne e no v
  have a: "lastStrongest tieDrawHand \<noteq> Hearts"
    and b: "player2Draw (1 / 2) (midTurnScene\<lparr>discardPileContainer := []\<rparr>)
       = moveCardToPlayer FromDeck Player2 (midTurnScene\<lparr>discardPileContainer := []\<rparr>)"
    by auto
  from C2_draw_source [of tieDrawHand "1 / 2" _ "mkSprite Diamonds Ace 11"] ne v
  have c: "drawFromDiscard tieDrawHand (Some (mkSprite Diamonds Ace 11)) (1 / 2)" by simp
  from ne a no c b show ?thesis by blast
qed

text \<open>
  The card examined is the first of the container's list, the oldest card of the pile,
  while the card taken is the one of greatest depth, the newest.
\<close>

lemma draw_examines_first_takes_top:
  "topDiscardCard [mkSprite Hearts Six 11, mkSprite Clubs Ace 121] = Some (mkSprite Hearts Six 11)
   \<and> moveTopCardToPlayer [mkSprite Hearts Six 11, mkSprite Clubs Ace 121]
       = Inr (Some (mkSprite Clubs Ace 121, [mkSprite Hearts Six 11]))"
  by (simp add: topDiscardCard_def moveTopCardToPlayer_def topByDepth_def mkSprite_def)

section \<open>The sizes of the hands through a session\<close>


lemma upt_6: "[0..<6] = [0, 1, 2, 3, 4, 5]"
  by (simp add: upt_rec)

lemma containers_updateTotalPoints [simp]:
  "player1Container (updateTotalPoints p s) = player1Container s"
  "player2Container (updateTotalPoints p s) = player2Container s"
  "deckContainer (updateTotalPoints p s) = deckContainer s"
  "discardPileContainer (updateTotalPoints p s) = discardPileContainer s"
  by (cases p; simp)+

lemma containers_updateEndTurnButton [simp]:
  "player1Container (updateEndTurnButton s) = player1Container s"
  "player2Container (updateEndTurnButton s) = player2Container s"
  "deckContainer (updateEndTurnButton s) = deckContainer s"
  "discardPileContainer (updateEndTurnButton s) = discardPileContainer s"
  by (simp_all add: updateEndTurnButton_def)

lemma containers_updatePoints [simp]:
  "player1Container (updatePoints p s) = player1Container s"
  "player2Container (updatePoints p s) = player2Container s"
  "deckContainer (updatePoints p s) = deckContainer s"
  "discardPileContainer (updatePoints p s) = discardPileContainer s"
  by (cases p; simp)+






lemma discardSettled_keeps [simp]:
  "player1Container (discardSettled p s) = player1Container s"
  "player2Container (discardSettled p s) = player2Container s"
  "mustDiscard (gameState (discardSettled p s)) = mustDiscard (gameState s)"
  by (simp_all add: discardSettled_def Let_def)

lemma knock_keeps [simp]:
  "player1Container (knock s) = player1Container s"
  "player2Container (knock s) = player2Container s"
  "mustDiscard (gameState (knock s)) = mustDiscard (gameState s)"
  "isPlayerTurn (gameState (knock s)) = isPlayerTurn (gameState s)"
  by (simp_all add: knock_def Let_def)

lemma startPlayer1Turn_keeps [simp]:
  "player1Container (startPlayer1Turn s) = player1Container s"
  "player2Container (startPlayer1Turn s) = player2Container s"
  "mustDiscard (gameState (startPlayer1Turn s)) = mustDiscard (gameState s)"
  by (simp_all add: startPlayer1Turn_def)

lemma flipPlayer2Cards_keeps [simp]:
  "player1Container (flipPlayer2Cards s) = player1Container s"
  "player2Container (flipPlayer2Cards s) = player2Container s"
  by (simp_all add: flipPlayer2Cards_def)

lemma onEndTurn_keeps [simp]:
  "player1Container (onEndTurn s) = player1Container s"
  "player2Container (onEndTurn s) = player2Container s"
  "\<not> mustDiscard (gameState (onEndTurn s))"
  "\<not> isPlayerTurn (gameState (onEndTurn s))"
  by (simp_all add: onEndTurn_def Let_def)

lemma findWorst_None: "length cards \<le> 3 \<Longrightarrow> findWorstCardConsideringSuits cards = None"
  by (simp add: findWorstCardConsideringSuits_def)

lemma chooseDiscard_member:
  assumes "3 < length cards"
  shows "chooseDiscard cards \<in> set cards"
proof -
  from assms have ne: "cards \<noteq> []" by auto
  let ?st = "List.find (\<lambda>s. suitTotal cards s = greatestTotal cards) (suitsInOrder cards)"
  show ?thesis
  proof (cases "otherSuitCards cards ?st = []")
    case True
    with ne show ?thesis by (simp add: chooseDiscard_def firstLowest_in)
  next
    case False
    then have "firstLowest (otherSuitCards cards ?st) \<in> set (otherSuitCards cards ?st)"
      by (rule firstLowest_in)
    with False show ?thesis by (auto simp: chooseDiscard_def set_otherSuitCards)
  qed
qed

lemma findWorst_Some_member:
  assumes "findWorstCardConsideringSuits cards = Some w"
  shows "w \<in> set cards" "3 < length cards"
proof -
  show len: "3 < length cards"
    using assms by (cases "length cards \<le> 3") (simp_all add: findWorst_None)
  from chooseDiscard_member [OF len] findWorst_eq [OF len] assms show "w \<in> set cards" by simp
qed





lemma length_rearrangeCards [simp]: "length (rearrangeCards cs) = length cs"
  by (simp add: rearrangeCards_def)






section \<open>The knock flag on a concrete session\<close>

lemmas scene_eval_defs = knockedScene_def knock_def midTurnScene_def updateGameState_def
  Let_def capturedIsPlayerTurn_def resetFlags_def player1Discard_def moveCardToPlayer_def
  mkSprite_def

theorem C7_knock_flag_witness:
  "knockButtonPressed (gameState knockedScene)
   \<and> \<not> list_ex isRestart [ClickDeckCard, ClickHandCard 0, ClickSortByRank,
         ClickEndTurn (1 / 2) (1 / 2) (1 / 2), ClickKnock]
   \<and> run [ClickDeckCard, ClickHandCard 0, ClickSortByRank,
         ClickEndTurn (1 / 2) (1 / 2) (1 / 2), ClickKnock] knockedScene = Inr knockedScene
   \<and> (case handle (ClickRestart unshuffledDeck) knockedScene of
         Inl f \<Rightarrow> False | Inr s'' \<Rightarrow> \<not> knockButtonPressed (gameState s''))"
proof -
  let ?es = "[ClickDeckCard, ClickHandCard 0, ClickSortByRank,
         ClickEndTurn (1 / 2) (1 / 2) (1 / 2), ClickKnock]"
  have k: "knockButtonPressed (gameState knockedScene)"
    by (simp add: scene_eval_defs)
  have nr: "\<not> list_ex isRestart ?es" by simp
  have r: "run ?es knockedScene = Inr knockedScene"
    by (simp add: scene_eval_defs)
  have "\<not> isl (startSession unshuffledDeck)" by code_simp
  then obtain s'' where s'': "startSession unshuffledDeck = Inr s''"
    by (cases "startSession unshuffledDeck") auto
  with k have h: "handle (ClickRestart unshuffledDeck) knockedScene = Inr s''" by simp
  from C7_knock_flag_monotonic [of ?es knockedScene knockedScene unshuffledDeck s''] k nr r h
  have "knockButtonPressed (gameState knockedScene)"
    and "\<not> knockButtonPressed (gameState s'')" by blast+
  with nr r h show ?thesis by simp
qed

section \<open>The turn that owes a discard\<close>








section \<open>The deal\<close>

lemma map_depth_createDeck: "map depth (createDeck shuffled) = [0..<length shuffled]"
proof -
  have "depth \<circ> (\<lambda>(i, c). \<lparr>cardData = c, depth = i\<rparr>) = fst"
    by (auto simp: fun_eq_iff)
  then have "map depth (createDeck shuffled) = map fst (List.enumerate 0 shuffled)"
    by (simp add: createDeck_def)
  then show ?thesis by simp
qed

lemma map_cardData_createDeck: "map cardData (createDeck shuffled) = shuffled"
proof -
  have "cardData \<circ> (\<lambda>(i, c). \<lparr>cardData = c, depth = i\<rparr>) = snd"
    by (auto simp: fun_eq_iff)
  then have "map cardData (createDeck shuffled) = map snd (List.enumerate 0 shuffled)"
    by (simp add: createDeck_def)
  then show ?thesis by simp
qed

lemma distinct_createDeck: "distinct (createDeck shuffled)"
proof -
  have "distinct (map depth (createDeck shuffled))" by (simp add: map_depth_createDeck)
  then show ?thesis by (simp add: distinct_map)
qed

lemma createDeck_snoc:
  "createDeck (xs @ [x]) = createDeck xs @ [\<lparr>cardData = x, depth = length xs\<rparr>]"
  by (simp add: createDeck_def enumerate_append_eq)

lemma depth_createDeck: "c \<in> set (createDeck xs) \<Longrightarrow> depth c < length xs"
proof -
  assume "c \<in> set (createDeck xs)"
  then have "depth c \<in> set (map depth (createDeck xs))" by simp
  then show ?thesis by (simp add: map_depth_createDeck)
qed

lemma sort_key_snoc_least:
  "\<forall>z \<in> set ys. f y < f z \<Longrightarrow> sort_key f (ys @ [y]) = y # sort_key f ys"
proof (induction ys)
  case Nil
  show ?case by simp
next
  case (Cons z ys)
  then have "sort_key f (ys @ [y]) = y # sort_key f ys" and "\<not> f z \<le> f y" by auto
  then show ?case by simp
qed

lemma sortedDeck_createDeck: "sortedDeck (createDeck xs) = rev (createDeck xs)"
proof (induction xs rule: rev_induct)
  case Nil
  show ?case by (simp add: sortedDeck_def createDeck_def)
next
  case (snoc x xs)
  have "\<forall>z \<in> set (createDeck xs).
          - int (depth \<lparr>cardData = x, depth = length xs\<rparr>) < - int (depth z)"
    by (auto dest: depth_createDeck)
  then have "sort_key (\<lambda>c. - int (depth c)) (createDeck xs @ [\<lparr>cardData = x, depth = length xs\<rparr>])
               = \<lparr>cardData = x, depth = length xs\<rparr> # sort_key (\<lambda>c. - int (depth c)) (createDeck xs)"
    by (rule sort_key_snoc_least)
  with snoc.IH show ?case by (simp add: sortedDeck_def createDeck_snoc)
qed

lemma remove1_last_take:
  assumes "distinct D" "k < length D"
  shows "remove1 (D ! k) (take (Suc k) D) = take k D"
proof -
  have t: "take (Suc k) D = take k D @ [D ! k]" using assms(2) by (rule take_Suc_conv_app_nth)
  have "D ! k \<notin> set (take k D)"
  proof
    assume "D ! k \<in> set (take k D)"
    then obtain j where j: "j < length (take k D)" "take k D ! j = D ! k"
      by (auto simp: in_set_conv_nth)
    then have "j < k" "D ! j = D ! k" by simp_all
    with assms have "j = k" by (simp add: nth_eq_iff_index_eq)
    with \<open>j < k\<close> show False by simp
  qed
  with t show ?thesis by (simp add: remove1_append)
qed

lemma remove_from_top:
  assumes "distinct D"
  shows "k \<le> length D \<Longrightarrow> fold remove1 (map (\<lambda>i. rev D ! i) [0..<k]) D = take (length D - k) D"
proof (induction k)
  case 0
  show ?case by simp
next
  case (Suc k)
  then have k: "k < length D" by simp
  let ?j = "length D - Suc k"
  have idx: "rev D ! k = D ! ?j" using k by (rule rev_nth)
  have j: "?j < length D" using k by simp
  have sj: "Suc ?j = length D - k" using k by simp
  have "fold remove1 (map (\<lambda>i. rev D ! i) [0..<Suc k]) D
          = remove1 (rev D ! k) (take (length D - k) D)"
    using Suc by simp
  also have "\<dots> = remove1 (D ! ?j) (take (Suc ?j) D)" by (simp add: idx sj)
  also have "\<dots> = take ?j D" using assms j by (rule remove1_last_take)
  finally show ?case .
qed

lemma deck_fold_dealCard:
  "deckContainer (fold (dealCard sd) is s) = fold remove1 (map (\<lambda>i. sd ! i) is) (deckContainer s)"
  by (induction "is" arbitrary: s) (simp_all add: dealCard_def Let_def)

lemma upt_7: "[0..<7] = [0, 1, 2, 3, 4, 5, 6]"
  by (simp add: upt_rec)

lemma startSession_deal:
  assumes "7 \<le> length shuffled"
  shows "\<exists>s. startSession shuffled = Inr s
    \<and> map cardData (player1Container s)
        = [rev shuffled ! 0, rev shuffled ! 2, rev shuffled ! 4]
    \<and> map cardData (player2Container s)
        = [rev shuffled ! 1, rev shuffled ! 3, rev shuffled ! 5]
    \<and> map cardData (discardPileContainer s) = [rev shuffled ! 6]
    \<and> map cardData (deckContainer s) = take (length shuffled - 7) shuffled"
proof -
  let ?D = "createDeck shuffled"
  let ?sd = "rev ?D"
  have cd: "cardData (?sd ! i) = rev shuffled ! i" if "i < 7" for i
  proof -
    from that assms have "i < length ?sd" by simp
    then have "cardData (?sd ! i) = map cardData ?sd ! i" by simp
    then show ?thesis by (simp add: rev_map [symmetric] map_cardData_createDeck)
  qed
  let ?s1 = "updateGameState CardsInteractable False
               (updateGameState IsAnimating True (initialScene shuffled))"
  let ?s2 = "fold (dealCard ?sd) [0..<6] ?s1"
  let ?s3 = "moveCardToDiscardPile (?sd ! 6) ?s2"
  let ?fin = "updateEndTurnButton (updateTotalPoints Player1
                (updateGameState MustDiscard False (updateGameState CardsInteractable True
                  (updateGameState IsAnimating False
                    (updateGameState AnimationComplete True ?s3)))))"
  have di: "deckContainer (initialScene shuffled) = ?D" by (simp add: initialScene_def)
  have s: "startSession shuffled = Inr ?fin"
    using assms by (simp add: startSession_def dealCards_def Let_def sortedDeck_createDeck di)
  have c1: "player1Container ?fin = player1Container ?s3"
    and c2: "player2Container ?fin = player2Container ?s3"
    and c3: "discardPileContainer ?fin = discardPileContainer ?s3"
    and c4: "deckContainer ?fin = deckContainer ?s3"
    by simp_all
  have h1: "map cardData (player1Container ?s3) = [rev shuffled ! 0, rev shuffled ! 2, rev shuffled ! 4]"
    by (simp add: moveCardToDiscardPile_def Let_def upt_6 dealCard_def initialScene_def cd)
  have h2: "map cardData (player2Container ?s3) = [rev shuffled ! 1, rev shuffled ! 3, rev shuffled ! 5]"
    by (simp add: moveCardToDiscardPile_def Let_def upt_6 dealCard_def initialScene_def cd)
  have p: "map cardData (discardPileContainer ?s3) = [rev shuffled ! 6]"
    by (simp add: moveCardToDiscardPile_def Let_def upt_6 dealCard_def initialScene_def cd)
  have "deckContainer ?s3 = remove1 (?sd ! 6) (fold remove1 (map (\<lambda>i. ?sd ! i) [0..<6]) ?D)"
    by (simp add: moveCardToDiscardPile_def Let_def deck_fold_dealCard initialScene_def)
  also have "\<dots> = fold remove1 (map (\<lambda>i. ?sd ! i) [0..<7]) ?D"
    by (simp add: upt_6 upt_7)
  also have "\<dots> = take (length ?D - 7) ?D"
    using distinct_createDeck assms by (intro remove_from_top) simp_all
  finally have d: "map cardData (deckContainer ?s3) = take (length shuffled - 7) shuffled"
    by (simp add: take_map [symmetric] map_cardData_createDeck)
  have "startSession shuffled = Inr ?fin
    \<and> map cardData (player1Container ?fin)
        = [rev shuffled ! 0, rev shuffled ! 2, rev shuffled ! 4]
    \<and> map cardData (player2Container ?fin)
        = [rev shuffled ! 1, rev shuffled ! 3, rev shuffled ! 5]
    \<and> map cardData (discardPileContainer ?fin) = [rev shuffled ! 6]
    \<and> map cardData (deckContainer ?fin) = take (length shuffled - 7) shuffled"
    unfolding c1 c2 c3 c4 using s h1 h2 p d by (intro conjI)
  then show ?thesis by (rule exI [of _ ?fin])
qed

lemma top_of_unshuffledDeck:
  "rev unshuffledDeck ! 0 = \<lparr>suit = Spades, rank = Ace\<rparr>"
  "rev unshuffledDeck ! 1 = \<lparr>suit = Spades, rank = King\<rparr>"
  "rev unshuffledDeck ! 2 = \<lparr>suit = Spades, rank = Queen\<rparr>"
  "rev unshuffledDeck ! 3 = \<lparr>suit = Spades, rank = Jack\<rparr>"
  "rev unshuffledDeck ! 4 = \<lparr>suit = Spades, rank = Ten\<rparr>"
  "rev unshuffledDeck ! 5 = \<lparr>suit = Spades, rank = Nine\<rparr>"
  "rev unshuffledDeck ! 6 = \<lparr>suit = Spades, rank = Eight\<rparr>"
  "length unshuffledDeck = 52"
  by code_simp+

text \<open>
  C3 (as stated): the top three cards go to the first hand and the next three to the
  second. With the deck in its unshuffled order the three top cards are the ace, king
  and queen of spades; the first hand receives the ace, the queen and the ten.
\<close>

theorem C3_alternate_deal_counterexample:
  "map_sum id (\<lambda>s. map cardData (player1Container s)) (startSession unshuffledDeck)
     = Inr [\<lparr>suit = Spades, rank = Ace\<rparr>, \<lparr>suit = Spades, rank = Queen\<rparr>,
            \<lparr>suit = Spades, rank = Ten\<rparr>]
   \<and> map_sum id (\<lambda>s. map cardData (player1Container s)) (startSession unshuffledDeck)
     \<noteq> Inr (take 3 (rev unshuffledDeck))"
proof -
  have len: "7 \<le> length unshuffledDeck" by (simp add: top_of_unshuffledDeck)
  from startSession_deal [OF len] obtain s where all: "startSession unshuffledDeck = Inr s
    \<and> map cardData (player1Container s)
        = [rev unshuffledDeck ! 0, rev unshuffledDeck ! 2, rev unshuffledDeck ! 4]
    \<and> map cardData (player2Container s)
        = [rev unshuffledDeck ! 1, rev unshuffledDeck ! 3, rev unshuffledDeck ! 5]
    \<and> map cardData (discardPileContainer s) = [rev unshuffledDeck ! 6]
    \<and> map cardData (deckContainer s) = take (length unshuffledDeck - 7) unshuffledDeck" ..
  then have a: "map_sum id (\<lambda>s. map cardData (player1Container s)) (startSession unshuffledDeck)
     = Inr [\<lparr>suit = Spades, rank = Ace\<rparr>, \<lparr>suit = Spades, rank = Queen\<rparr>,
            \<lparr>suit = Spades, rank = Ten\<rparr>]"
    by (simp add: top_of_unshuffledDeck)
  have b: "take 3 (rev unshuffledDeck)
       = [\<lparr>suit = Spades, rank = Ace\<rparr>, \<lparr>suit = Spades, rank = King\<rparr>,
          \<lparr>suit = Spades, rank = Queen\<rparr>]"
    by code_simp
  from a b show ?thesis by simp
qed

text \<open>
  C3 (amended): the deal hands out the seven top cards of the shuffled deck
  alternately: the first, third and fifth to the first hand, the second, fourth and
  sixth to the second hand, the seventh as the first card of the discard pile; the
  rest stays in the deck, in its order.
\<close>

theorem C3_deal:
  assumes "7 \<le> length shuffled"
  shows "\<exists>s. startSession shuffled = Inr s
    \<and> map cardData (player1Container s)
        = [rev shuffled ! 0, rev shuffled ! 2, rev shuffled ! 4]
    \<and> map cardData (player2Container s)
        = [rev shuffled ! 1, rev shuffled ! 3, rev shuffled ! 5]
    \<and> map cardData (discardPileContainer s) = [rev shuffled ! 6]
    \<and> map cardData (deckContainer s) = take (length shuffled - 7) shuffled"
  using assms by (rule startSession_deal)

theorem C3_deal_witness:
  "7 \<le> length unshuffledDeck
   \<and> map_sum id (\<lambda>s. (map cardData (player1Container s), map cardData (player2Container s),
        map cardData (discardPileContainer s), length (deckContainer s)))
       (startSession unshuffledDeck)
     = Inr ([\<lparr>suit = Spades, rank = Ace\<rparr>, \<lparr>suit = Spades, rank = Queen\<rparr>,
             \<lparr>suit = Spades, rank = Ten\<rparr>],
            [\<lparr>suit = Spades, rank = King\<rparr>, \<lparr>suit = Spades, rank = Jack\<rparr>,
             \<lparr>suit = Spades, rank = Nine\<rparr>],
            [\<lparr>suit = Spades, rank = Eight\<rparr>], 45)"
proof -
  note r = top_of_unshuffledDeck
  have len: "7 \<le> length unshuffledDeck" by (simp add: r)
  from C3_deal [OF len] obtain s where all: "startSession unshuffledDeck = Inr s
    \<and> map cardData (player1Container s)
        = [rev unshuffledDeck ! 0, rev unshuffledDeck ! 2, rev unshuffledDeck ! 4]
    \<and> map cardData (player2Container s)
        = [rev unshuffledDeck ! 1, rev unshuffledDeck ! 3, rev unshuffledDeck ! 5]
    \<and> map cardData (discardPileContainer s) = [rev unshuffledDeck ! 6]
    \<and> map cardData (deckContainer s) = take (length unshuffledDeck - 7) unshuffledDeck" ..
  then have s: "startSession unshuffledDeck = Inr s"
    and h: "map cardData (player1Container s)
        = [rev unshuffledDeck ! 0, rev unshuffledDeck ! 2, rev unshuffledDeck ! 4]"
      "map cardData (player2Container s)
        = [rev unshuffledDeck ! 1, rev unshuffledDeck ! 3, rev unshuffledDeck ! 5]"
      "map cardData (discardPileContainer s) = [rev unshuffledDeck ! 6]"
      "map cardData (deckContainer s) = take (length unshuffledDeck - 7) unshuffledDeck"
    by blast+
  have "length (map cardData (deckContainer s)) = 45"
    unfolding h(4) by (simp add: r(8))
  then have "length (deckContainer s) = 45" by simp
  with len s h(1,2,3) r show ?thesis by simp
qed

end
